theory Spec2Isabelle
  imports Main "HOL-Library.Word"
begin

unbundle bit_operations_syntax

section \<open>Bytes, errors and the input stream\<close>

text \<open>
  The VMAD codec of \<^verbatim>\<open>Mopy/bash/game/skyrim/records.py\<close> reads from a seekable
  reader and writes byte strings. Bytes are 8-bit words. A text value is carried as the
  list of its cp1252 code units: the codec only ever moves text through
  \<^verbatim>\<open>_read_vmad_str16\<close> and \<^verbatim>\<open>_dump_vmad_str16\<close>, which use that single-byte
  code page. Python integers are unbounded and are modelled as \<open>int\<close>; the range checks
  of \<^verbatim>\<open>struct_pack\<close> are written out.
\<close>

type_synonym byte = "8 word"
type_synonym str = "byte list"

datatype error =
    ModReadError
  | UnrecognizedVersion int
  | UnrecognizedObjectFormat int
  | UnrecognizedPropertyType int
  | StructError
  | UnicodeDecodeError
  | AttributeError
  | OutsideModel

text \<open>
  \<open>ModReadError\<close> is the reader's error for a read or seek outside the stream (the
  spec's TruncatedData). The three \<open>Unrecognized\<dots>\<close> errors are the three
  \<^verbatim>\<open>ModError\<close>s the codec raises, told apart by their message and carrying the offending
  value. \<open>StructError\<close> is \<^verbatim>\<open>struct.error\<close>, \<open>AttributeError\<close> a read of an attribute
  that was never assigned. \<open>OutsideModel\<close> marks a tree whose dynamic shape the model does
  not follow (a property payload that does not have the shape of its type tag, special
  data of another record type): Python may coerce or raise there, the model says nothing.
\<close>

fun bindE :: "error + 'a \<Rightarrow> ('a \<Rightarrow> error + 'b) \<Rightarrow> error + 'b" where
  "bindE (Inl e) f = Inl e"
| "bindE (Inr x) f = f x"

record ModReader =
  ins_data :: "byte list"
  ins_pos :: nat

text \<open>
  Modelled from the spec: the reader class (\<^verbatim>\<open>ModReader\<close>) is not part of the sources at
  hand. A fixed-width read rejects a cursor with fewer bytes left than its width; a
  relative seek rejects a target before the start or after the end of the stream.
\<close>

definition ins_unpack :: "nat \<Rightarrow> ModReader \<Rightarrow> error + (byte list \<times> ModReader)" where
  "ins_unpack sz ins =
     (if ins_pos ins + sz > length (ins_data ins) then Inl ModReadError
      else Inr (take sz (drop (ins_pos ins) (ins_data ins)),
                ins\<lparr>ins_pos := ins_pos ins + sz\<rparr>))"

definition ins_read :: "nat \<Rightarrow> ModReader \<Rightarrow> error + (byte list \<times> ModReader)" where
  "ins_read sz ins =
     (if ins_pos ins + sz > length (ins_data ins) then Inl ModReadError
      else Inr (take sz (drop (ins_pos ins) (ins_data ins)),
                ins\<lparr>ins_pos := ins_pos ins + sz\<rparr>))"

definition ins_seek :: "int \<Rightarrow> ModReader \<Rightarrow> error + ModReader" where
  "ins_seek offset ins =
     (let newPos = int (ins_pos ins) + offset
      in if newPos < 0 \<or> newPos > int (length (ins_data ins)) then Inl ModReadError
         else Inr (ins\<lparr>ins_pos := nat newPos\<rparr>))"

definition ins_tell :: "ModReader \<Rightarrow> nat" where
  "ins_tell ins = ins_pos ins"

subsection \<open>struct formats, little-endian\<close>

fun le_uint :: "byte list \<Rightarrow> int" where
  "le_uint [] = 0"
| "le_uint (b # bs) = uint b + 256 * le_uint bs"

definition unpack_B :: "byte list \<Rightarrow> int" where
  "unpack_B bs = le_uint bs"

definition unpack_b :: "byte list \<Rightarrow> int" where
  "unpack_b bs = (let u = le_uint bs in if u \<ge> 128 then u - 256 else u)"

definition unpack_H :: "byte list \<Rightarrow> int" where
  "unpack_H bs = le_uint bs"

definition unpack_h :: "byte list \<Rightarrow> int" where
  "unpack_h bs = (let u = le_uint bs in if u \<ge> 32768 then u - 65536 else u)"

definition unpack_I :: "byte list \<Rightarrow> int" where
  "unpack_I bs = le_uint bs"

definition unpack_i :: "byte list \<Rightarrow> int" where
  "unpack_i bs = (let u = le_uint bs in if u \<ge> 2147483648 then u - 4294967296 else u)"

definition bytes1 :: "int \<Rightarrow> byte list" where
  "bytes1 n = [word_of_int n]"

definition bytes2 :: "int \<Rightarrow> byte list" where
  "bytes2 n = [word_of_int n, word_of_int (n div 256)]"

definition bytes4 :: "int \<Rightarrow> byte list" where
  "bytes4 n = [word_of_int n, word_of_int (n div 256),
               word_of_int (n div 65536), word_of_int (n div 16777216)]"

definition pack_B :: "int \<Rightarrow> error + byte list" where
  "pack_B n = (if 0 \<le> n \<and> n \<le> 255 then Inr (bytes1 n) else Inl StructError)"

definition pack_b :: "int \<Rightarrow> error + byte list" where
  "pack_b n = (if -128 \<le> n \<and> n \<le> 127 then Inr (bytes1 n) else Inl StructError)"

definition pack_H :: "int \<Rightarrow> error + byte list" where
  "pack_H n = (if 0 \<le> n \<and> n \<le> 65535 then Inr (bytes2 n) else Inl StructError)"

definition pack_h :: "int \<Rightarrow> error + byte list" where
  "pack_h n = (if -32768 \<le> n \<and> n \<le> 32767 then Inr (bytes2 n) else Inl StructError)"

definition pack_I :: "int \<Rightarrow> error + byte list" where
  "pack_I n = (if 0 \<le> n \<and> n \<le> 4294967295 then Inr (bytes4 n) else Inl StructError)"

definition pack_i :: "int \<Rightarrow> error + byte list" where
  "pack_i n = (if -2147483648 \<le> n \<and> n \<le> 2147483647 then Inr (bytes4 n)
               else Inl StructError)"

text \<open>
  A float (\<^verbatim>\<open>'f'\<close>) is carried as its 32-bit IEEE pattern: the codec never computes
  with it, it only unpacks and packs it.
\<close>

definition unpack_f :: "byte list \<Rightarrow> 32 word" where
  "unpack_f bs = word_of_int (le_uint bs)"

definition pack_f :: "32 word \<Rightarrow> byte list" where
  "pack_f w = bytes4 (uint w)"

text \<open>Running a reader or a dumper over a list, stopping at the first error.\<close>

fun load_n :: "(ModReader \<Rightarrow> error + ('a \<times> ModReader)) \<Rightarrow> nat \<Rightarrow> ModReader
    \<Rightarrow> error + ('a list \<times> ModReader)" where
  "load_n ld 0 ins = Inr ([], ins)"
| "load_n ld (Suc n) ins =
     bindE (ld ins) (\<lambda>(x, ins1).
     bindE (load_n ld n ins1) (\<lambda>(xs, ins2). Inr (x # xs, ins2)))"

fun dump_each :: "('a \<Rightarrow> error + byte list) \<Rightarrow> 'a list \<Rightarrow> error + byte list" where
  "dump_each dmp [] = Inr []"
| "dump_each dmp (x # xs) =
     bindE (dmp x) (\<lambda>b. bindE (dump_each dmp xs) (\<lambda>bs. Inr (b @ bs)))"

fun dump_each_upd :: "('a \<Rightarrow> error + ('a \<times> byte list)) \<Rightarrow> 'a list
    \<Rightarrow> error + ('a list \<times> byte list)" where
  "dump_each_upd dmp [] = Inr ([], [])"
| "dump_each_upd dmp (x # xs) =
     bindE (dmp x) (\<lambda>(x', b).
     bindE (dump_each_upd dmp xs) (\<lambda>(xs', bs). Inr (x' # xs', b @ bs)))"

text \<open>
  \<open>chunks w n bs\<close> cuts \<open>bs\<close> into \<open>n\<close> pieces of \<open>w\<close> bytes, as unpacking
  with the format \<^verbatim>\<open>'%di' % n\<close> does before it reads each piece.
\<close>

fun chunks :: "nat \<Rightarrow> nat \<Rightarrow> byte list \<Rightarrow> byte list list" where
  "chunks w 0 bs = []"
| "chunks w (Suc n) bs = take w bs # chunks w n (drop w bs)"

subsection \<open>Length-prefixed cp1252 strings\<close>

text \<open>
  \<^verbatim>\<open>_read_vmad_str16\<close> reads a 16-bit length and that many bytes, and decodes them with
  cp1252; the decoder raises on the five code units that the code page leaves undefined.
  \<^verbatim>\<open>_dump_vmad_str16\<close> writes the length of the encoded text as 16 bits, then the
  encoded text. Modelled from the spec: \<^verbatim>\<open>bolt.encode\<close> is not part of the sources at
  hand; with a text carried as its cp1252 code units, its encoding is these code units.
\<close>

definition cp1252_undefined :: "byte list" where
  "cp1252_undefined = [0x81, 0x8D, 0x8F, 0x90, 0x9D]"

definition cp1252_decode :: "byte list \<Rightarrow> error + str" where
  "cp1252_decode bs =
     (if list_ex (\<lambda>b. b \<in> set cp1252_undefined) bs then Inl UnicodeDecodeError
      else Inr bs)"

definition dump_vmad_str16 :: "str \<Rightarrow> error + byte list" where
  "dump_vmad_str16 str_val =
     bindE (pack_H (int (length str_val))) (\<lambda>l. Inr (l @ str_val))"

definition read_vmad_str16 :: "ModReader \<Rightarrow> error + (str \<times> ModReader)" where
  "read_vmad_str16 ins =
     bindE (ins_unpack 2 ins) (\<lambda>(l, ins1).
     bindE (ins_read (nat (unpack_H l)) ins1) (\<lambda>(raw, ins2).
     bindE (cp1252_decode raw) (\<lambda>s. Inr (s, ins2))))"

text \<open>
  Modelled from the spec: \<^verbatim>\<open>bolt.Flags\<close> is not part of the sources at hand. A flags
  value is the raw integer read from the stream behind a view of named bits; the
  \<open>i\<close>-th declared name is bit \<open>i\<close>, setting a name sets or clears that bit, and the
  other bits are kept.
\<close>

definition flag_mask :: "nat \<Rightarrow> byte" where
  "flag_mask i = push_bit i 1"

definition is_flag_set :: "byte \<Rightarrow> nat \<Rightarrow> bool" where
  "is_flag_set fl i = (fl AND flag_mask i \<noteq> 0)"

definition set_flag :: "byte \<Rightarrow> nat \<Rightarrow> bool \<Rightarrow> byte" where
  "set_flag fl i v = (if v then fl OR flag_mask i else fl AND NOT (flag_mask i))"

section \<open>Object references\<close>

record ObjectRef =
  aid :: int
  fid :: int

definition dump_out :: "ObjectRef \<Rightarrow> error + byte list" where
  "dump_out r =
     bindE (pack_H 0) (\<lambda>unused.
     bindE (pack_h (aid r)) (\<lambda>a.
     bindE (pack_I (fid r)) (\<lambda>f. Inr (unused @ a @ f))))"

text \<open>
  \<^verbatim>\<open>ObjectRef.map_fids\<close>: the mapping function is called on the FormID; the result is
  stored when \<open>save\<close> holds and dropped otherwise. The list returned beside the
  reference records the calls made (the arguments, in order).
\<close>

definition ObjectRef_map_fids :: "(int \<Rightarrow> int) \<Rightarrow> bool \<Rightarrow> ObjectRef \<Rightarrow> ObjectRef \<times> int list" where
  "ObjectRef_map_fids map_function save r =
     (let result = map_function (fid r)
      in (if save then r\<lparr>fid := result\<rparr> else r, [fid r]))"

definition from_file :: "int \<Rightarrow> ModReader \<Rightarrow> error + (ObjectRef \<times> ModReader)" where
  "from_file obj_format ins =
     (if obj_format = 1 then
        bindE (ins_unpack 8 ins) (\<lambda>(bs, ins1).
          Inr (\<lparr>aid = unpack_h (take 2 (drop 4 bs)), fid = unpack_I (take 4 bs)\<rparr>, ins1))
      else
        bindE (ins_unpack 8 ins) (\<lambda>(bs, ins1).
          Inr (\<lparr>aid = unpack_h (take 2 (drop 2 bs)), fid = unpack_I (drop 4 bs)\<rparr>, ins1)))"

definition array_from_file :: "int \<Rightarrow> ModReader \<Rightarrow> error + (ObjectRef list \<times> ModReader)" where
  "array_from_file obj_format ins =
     bindE (ins_unpack 4 ins) (\<lambda>(n, ins1).
       load_n (from_file obj_format) (nat (unpack_I n)) ins1)"

definition dump_array :: "ObjectRef list \<Rightarrow> error + byte list" where
  "dump_array target_list =
     bindE (pack_I (int (length target_list))) (\<lambda>out_data.
     bindE (dump_each dump_out target_list) (\<lambda>refs. Inr (out_data @ refs)))"

section \<open>Properties\<close>

text \<open>
  A property's payload is typed by its \<open>prop_type\<close> tag. The tag is an attribute of its
  own, as in the source, so a tree can hold a tag that names no payload shape.
\<close>

datatype prop_value =
    PNull
  | PObject ObjectRef
  | PString str
  | PSint32 int
  | PFloat "32 word"
  | PBool bool
  | PObjectArray "ObjectRef list"
  | PStringArray "str list"
  | PSint32Array "int list"
  | PFloatArray "32 word list"
  | PBoolArray "bool list"

record Property =
  prop_name :: str
  prop_type :: int
  prop_flags :: byte
  prop_data :: prop_value

text \<open>The \<^verbatim>\<open>if\<close>/\<^verbatim>\<open>elif\<close> chain of \<^verbatim>\<open>Property.load_data\<close>, on the type tag just read.\<close>

definition load_prop_data :: "int \<Rightarrow> int \<Rightarrow> ModReader \<Rightarrow> error + (prop_value \<times> ModReader)" where
  "load_prop_data property_type obj_format ins =
     (if property_type = 0 then Inr (PNull, ins)
      else if property_type = 1 then
        bindE (from_file obj_format ins) (\<lambda>(r, ins1). Inr (PObject r, ins1))
      else if property_type = 2 then
        bindE (read_vmad_str16 ins) (\<lambda>(s, ins1). Inr (PString s, ins1))
      else if property_type = 3 then
        bindE (ins_unpack 4 ins) (\<lambda>(bs, ins1). Inr (PSint32 (unpack_i bs), ins1))
      else if property_type = 4 then
        bindE (ins_unpack 4 ins) (\<lambda>(bs, ins1). Inr (PFloat (unpack_f bs), ins1))
      else if property_type = 5 then
        bindE (ins_unpack 1 ins) (\<lambda>(bs, ins1). Inr (PBool (unpack_B bs \<noteq> 0), ins1))
      else if property_type = 11 then
        bindE (array_from_file obj_format ins) (\<lambda>(rs, ins1). Inr (PObjectArray rs, ins1))
      else if property_type = 12 then
        bindE (ins_unpack 4 ins) (\<lambda>(n, ins1).
        bindE (load_n read_vmad_str16 (nat (unpack_I n)) ins1) (\<lambda>(ss, ins2).
          Inr (PStringArray ss, ins2)))
      else if property_type = 13 then
        bindE (ins_unpack 4 ins) (\<lambda>(n, ins1).
        bindE (ins_unpack (nat (unpack_I n) * 4) ins1) (\<lambda>(bs, ins2).
          Inr (PSint32Array (map unpack_i (chunks 4 (nat (unpack_I n)) bs)), ins2)))
      else if property_type = 14 then
        bindE (ins_unpack 4 ins) (\<lambda>(n, ins1).
        bindE (ins_unpack (nat (unpack_I n) * 4) ins1) (\<lambda>(bs, ins2).
          Inr (PFloatArray (map unpack_f (chunks 4 (nat (unpack_I n)) bs)), ins2)))
      else if property_type = 15 then
        bindE (ins_unpack 4 ins) (\<lambda>(n, ins1).
        bindE (ins_unpack (nat (unpack_I n)) ins1) (\<lambda>(bs, ins2).
          Inr (PBoolArray (map (\<lambda>x. uint x \<noteq> 0) bs), ins2)))
      else Inl (UnrecognizedPropertyType property_type))"

text \<open>
  \<^verbatim>\<open>Property.load_data\<close>: the name and the type tag, then the flags byte for VMAD version
  4 and later; for older versions no byte is read and the flags are 1. Then the payload.
\<close>

definition Property_load_data :: "int \<Rightarrow> int \<Rightarrow> ModReader \<Rightarrow> error + (Property \<times> ModReader)" where
  "Property_load_data vmad_version obj_format ins =
     bindE (read_vmad_str16 ins) (\<lambda>(name, ins1).
     bindE (ins_unpack 1 ins1) (\<lambda>(t, ins2).
     bindE (if vmad_version \<ge> 4
            then bindE (ins_unpack 1 ins2) (\<lambda>(f, ins3). Inr (word_of_int (unpack_B f), ins3))
            else Inr (1, ins2)) (\<lambda>(flags, ins3).
     bindE (load_prop_data (unpack_B t) obj_format ins3) (\<lambda>(d, ins4).
       Inr (\<lparr>prop_name = name, prop_type = unpack_B t, prop_flags = flags,
             prop_data = d\<rparr>, ins4)))))"

text \<open>The \<^verbatim>\<open>if\<close>/\<^verbatim>\<open>elif\<close> chain of \<^verbatim>\<open>Property.dump_data\<close>.\<close>

definition dump_prop_data :: "int \<Rightarrow> prop_value \<Rightarrow> error + byte list" where
  "dump_prop_data property_type property_data =
     (if property_type = 0 then Inr []
      else if property_type = 1 then
        (case property_data of PObject r \<Rightarrow> dump_out r | _ \<Rightarrow> Inl OutsideModel)
      else if property_type = 2 then
        (case property_data of PString s \<Rightarrow> dump_vmad_str16 s | _ \<Rightarrow> Inl OutsideModel)
      else if property_type = 3 then
        (case property_data of PSint32 n \<Rightarrow> pack_i n | _ \<Rightarrow> Inl OutsideModel)
      else if property_type = 4 then
        (case property_data of PFloat w \<Rightarrow> Inr (pack_f w) | _ \<Rightarrow> Inl OutsideModel)
      else if property_type = 5 then
        (case property_data of PBool b \<Rightarrow> pack_b (if b then 1 else 0)
         | _ \<Rightarrow> Inl OutsideModel)
      else if property_type = 11 then
        (case property_data of PObjectArray rs \<Rightarrow> dump_array rs | _ \<Rightarrow> Inl OutsideModel)
      else if property_type = 12 then
        (case property_data of
           PStringArray ss \<Rightarrow>
             bindE (pack_I (int (length ss))) (\<lambda>l.
             bindE (dump_each dump_vmad_str16 ss) (\<lambda>b. Inr (l @ b)))
         | _ \<Rightarrow> Inl OutsideModel)
      else if property_type = 13 then
        (case property_data of
           PSint32Array ns \<Rightarrow>
             bindE (pack_I (int (length ns))) (\<lambda>l.
             bindE (dump_each pack_i ns) (\<lambda>b. Inr (l @ b)))
         | _ \<Rightarrow> Inl OutsideModel)
      else if property_type = 14 then
        (case property_data of
           PFloatArray ws \<Rightarrow>
             bindE (pack_I (int (length ws))) (\<lambda>l.
             bindE (dump_each (\<lambda>w. Inr (pack_f w)) ws) (\<lambda>b. Inr (l @ b)))
         | _ \<Rightarrow> Inl OutsideModel)
      else if property_type = 15 then
        (case property_data of
           PBoolArray xs \<Rightarrow>
             bindE (pack_I (int (length xs))) (\<lambda>l.
             bindE (dump_each (\<lambda>x. pack_B (if x then 1 else 0)) xs) (\<lambda>b. Inr (l @ b)))
         | _ \<Rightarrow> Inl OutsideModel)
      else Inl (UnrecognizedPropertyType property_type))"

definition Property_dump_data :: "Property \<Rightarrow> error + byte list" where
  "Property_dump_data record =
     bindE (dump_vmad_str16 (prop_name record)) (\<lambda>n.
     bindE (pack_B (prop_type record)) (\<lambda>t.
     bindE (pack_B (uint (prop_flags record))) (\<lambda>f.
     bindE (dump_prop_data (prop_type record) (prop_data record)) (\<lambda>d.
       Inr (n @ t @ f @ d)))))"

text \<open>
  Mapping FormIDs. Every \<open>map_fids\<close> returns the component as it is after the call and
  the list of FormIDs the mapping function was called on, in call order.
\<close>

fun map_each :: "('a \<Rightarrow> error + ('a \<times> int list)) \<Rightarrow> 'a list \<Rightarrow> error + ('a list \<times> int list)" where
  "map_each mp [] = Inr ([], [])"
| "map_each mp (x # xs) =
     bindE (mp x) (\<lambda>(x', c).
     bindE (map_each mp xs) (\<lambda>(xs', cs). Inr (x' # xs', c @ cs)))"

definition Property_map_fids :: "(int \<Rightarrow> int) \<Rightarrow> bool \<Rightarrow> Property
    \<Rightarrow> error + (Property \<times> int list)" where
  "Property_map_fids map_function save record =
     (if prop_type record = 1 then
        (case prop_data record of
           PObject r \<Rightarrow>
             (case ObjectRef_map_fids map_function save r of
                (r', calls) \<Rightarrow> Inr (record\<lparr>prop_data := PObject r'\<rparr>, calls))
         | _ \<Rightarrow> Inl OutsideModel)
      else if prop_type record = 11 then
        (case prop_data record of
           PObjectArray rs \<Rightarrow>
             bindE (map_each (\<lambda>r. Inr (ObjectRef_map_fids map_function save r)) rs)
               (\<lambda>(rs', calls). Inr (record\<lparr>prop_data := PObjectArray rs'\<rparr>, calls))
         | _ \<Rightarrow> Inl OutsideModel)
      else Inr (record, []))"

section \<open>Scripts\<close>

record Script =
  script_name :: str
  script_flags :: byte
  property_count :: int
  properties :: "Property list"

definition Script_load_data :: "int \<Rightarrow> int \<Rightarrow> ModReader \<Rightarrow> error + (Script \<times> ModReader)" where
  "Script_load_data vmad_version obj_format ins =
     bindE (read_vmad_str16 ins) (\<lambda>(name, ins1).
     bindE (ins_unpack 1 ins1) (\<lambda>(f, ins2).
     bindE (ins_unpack 2 ins2) (\<lambda>(c, ins3).
     bindE (load_n (Property_load_data vmad_version obj_format) (nat (unpack_H c)) ins3)
       (\<lambda>(children, ins4).
       Inr (\<lparr>script_name = name, script_flags = word_of_int (unpack_B f),
             property_count = unpack_H c, properties = children\<rparr>, ins4)))))"

text \<open>
  \<^verbatim>\<open>_AVariableContainer.dump_data\<close> stores the list length in the count attribute
  before it dumps, so a dump returns the component as it is afterwards beside the bytes.
  When a dump raises, the model keeps the error only.
\<close>

definition Script_dump_data :: "Script \<Rightarrow> error + (Script \<times> byte list)" where
  "Script_dump_data record =
     (let record1 = record\<lparr>property_count := int (length (properties record))\<rparr>
      in bindE (dump_vmad_str16 (script_name record1)) (\<lambda>n.
         bindE (pack_B (uint (script_flags record1))) (\<lambda>f.
         bindE (pack_H (property_count record1)) (\<lambda>c.
         bindE (dump_each Property_dump_data (properties record1)) (\<lambda>children.
           Inr (record1, n @ f @ c @ children))))))"

definition Script_map_fids :: "(int \<Rightarrow> int) \<Rightarrow> bool \<Rightarrow> Script \<Rightarrow> error + (Script \<times> int list)" where
  "Script_map_fids map_function save record =
     bindE (map_each (Property_map_fids map_function save) (properties record))
       (\<lambda>(children, calls). Inr (record\<lparr>properties := children\<rparr>, calls))"

section \<open>Aliases\<close>

record Alias =
  alias_ref_obj :: ObjectRef
  alias_vmad_version :: int
  alias_obj_format :: int
  script_count :: int
  scripts :: "Script list"

text \<open>
  \<^verbatim>\<open>Alias.load_data\<close>: skip the object reference, read the alias's own version, object
  format and script count, go back 14 bytes and read the object reference with the
  format just read, skip the three fields again, and load the scripts with the alias's
  version and format. The arguments \<open>vmad_version\<close> and \<open>obj_format\<close> are overwritten
  before their first use.
\<close>

definition Alias_load_data :: "int \<Rightarrow> int \<Rightarrow> ModReader \<Rightarrow> error + (Alias \<times> ModReader)" where
  "Alias_load_data vmad_version obj_format ins =
     bindE (ins_seek 8 ins) (\<lambda>ins1.
     bindE (ins_unpack 2 ins1) (\<lambda>(v, ins2).
     bindE (ins_unpack 2 ins2) (\<lambda>(f, ins3).
     bindE (ins_unpack 2 ins3) (\<lambda>(c, ins4).
     (let vmad_version1 = unpack_h v; obj_format1 = unpack_h f
      in bindE (ins_seek (-14) ins4) (\<lambda>ins5.
         bindE (from_file obj_format1 ins5) (\<lambda>(r, ins6).
         bindE (ins_seek 6 ins6) (\<lambda>ins7.
         bindE (load_n (Script_load_data vmad_version1 obj_format1) (nat (unpack_H c)) ins7)
           (\<lambda>(children, ins8).
           Inr (\<lparr>alias_ref_obj = r, alias_vmad_version = unpack_h v,
                 alias_obj_format = unpack_h f, script_count = unpack_H c,
                 scripts = children\<rparr>, ins8))))))))))"

definition Alias_dump_data :: "Alias \<Rightarrow> error + (Alias \<times> byte list)" where
  "Alias_dump_data record =
     bindE (dump_out (alias_ref_obj record)) (\<lambda>out_data.
     (let record1 = record\<lparr>alias_vmad_version := 5, alias_obj_format := 2\<rparr>;
          record2 = record1\<lparr>script_count := int (length (scripts record1))\<rparr>
      in bindE (pack_h (alias_vmad_version record2)) (\<lambda>v.
         bindE (pack_h (alias_obj_format record2)) (\<lambda>f.
         bindE (pack_H (script_count record2)) (\<lambda>c.
         bindE (dump_each_upd Script_dump_data (scripts record2)) (\<lambda>(children, bs).
           Inr (record2\<lparr>scripts := children\<rparr>, out_data @ v @ f @ c @ bs)))))))"

definition Alias_map_fids :: "(int \<Rightarrow> int) \<Rightarrow> bool \<Rightarrow> Alias \<Rightarrow> error + (Alias \<times> int list)" where
  "Alias_map_fids map_function save record =
     (case ObjectRef_map_fids map_function save (alias_ref_obj record) of
        (r', calls) \<Rightarrow>
          bindE (map_each (Script_map_fids map_function save) (scripts record))
            (\<lambda>(children, calls1).
            Inr (record\<lparr>alias_ref_obj := r', scripts := children\<rparr>, calls @ calls1)))"

section \<open>Fragments\<close>

text \<open>
  The fragment and handler classes reuse attribute names (\<^verbatim>\<open>unknown1\<close>,
  \<^verbatim>\<open>script_name\<close>, \<^verbatim>\<open>fragment_flags\<close>, \<dots>); each record below carries the source's
  names with the class as suffix.
\<close>

record FragmentBasic =
  unknown1_basic :: int
  script_name_basic :: str
  fragment_name_basic :: str

definition FragmentBasic_load_data :: "int \<Rightarrow> int \<Rightarrow> ModReader
    \<Rightarrow> error + (FragmentBasic \<times> ModReader)" where
  "FragmentBasic_load_data vmad_version obj_format ins =
     bindE (ins_unpack 1 ins) (\<lambda>(u, ins1).
     bindE (read_vmad_str16 ins1) (\<lambda>(sn, ins2).
     bindE (read_vmad_str16 ins2) (\<lambda>(fn, ins3).
       Inr (\<lparr>unknown1_basic = unpack_b u, script_name_basic = sn,
             fragment_name_basic = fn\<rparr>, ins3))))"

definition FragmentBasic_dump_data :: "FragmentBasic \<Rightarrow> error + byte list" where
  "FragmentBasic_dump_data record =
     bindE (pack_b (unknown1_basic record)) (\<lambda>u.
     bindE (dump_vmad_str16 (script_name_basic record)) (\<lambda>sn.
     bindE (dump_vmad_str16 (fragment_name_basic record)) (\<lambda>fn.
       Inr (u @ sn @ fn))))"

record FragmentPERK =
  fragment_index_perk :: int
  unknown1_perk :: int
  unknown2_perk :: int
  script_name_perk :: str
  fragment_name_perk :: str

definition FragmentPERK_load_data :: "int \<Rightarrow> int \<Rightarrow> ModReader
    \<Rightarrow> error + (FragmentPERK \<times> ModReader)" where
  "FragmentPERK_load_data vmad_version obj_format ins =
     bindE (ins_unpack 2 ins) (\<lambda>(i, ins1).
     bindE (ins_unpack 2 ins1) (\<lambda>(u1, ins2).
     bindE (ins_unpack 1 ins2) (\<lambda>(u2, ins3).
     bindE (read_vmad_str16 ins3) (\<lambda>(sn, ins4).
     bindE (read_vmad_str16 ins4) (\<lambda>(fn, ins5).
       Inr (\<lparr>fragment_index_perk = unpack_H i, unknown1_perk = unpack_h u1,
             unknown2_perk = unpack_b u2, script_name_perk = sn,
             fragment_name_perk = fn\<rparr>, ins5))))))"

definition FragmentPERK_dump_data :: "FragmentPERK \<Rightarrow> error + byte list" where
  "FragmentPERK_dump_data record =
     bindE (pack_H (fragment_index_perk record)) (\<lambda>i.
     bindE (pack_h (unknown1_perk record)) (\<lambda>u1.
     bindE (pack_b (unknown2_perk record)) (\<lambda>u2.
     bindE (dump_vmad_str16 (script_name_perk record)) (\<lambda>sn.
     bindE (dump_vmad_str16 (fragment_name_perk record)) (\<lambda>fn.
       Inr (i @ u1 @ u2 @ sn @ fn))))))"

record FragmentQUST =
  quest_stage_qust :: int
  unknown1_qust :: int
  quest_stage_index_qust :: int
  unknown2_qust :: int
  script_name_qust :: str
  fragment_name_qust :: str

definition FragmentQUST_load_data :: "int \<Rightarrow> int \<Rightarrow> ModReader
    \<Rightarrow> error + (FragmentQUST \<times> ModReader)" where
  "FragmentQUST_load_data vmad_version obj_format ins =
     bindE (ins_unpack 2 ins) (\<lambda>(q, ins1).
     bindE (ins_unpack 2 ins1) (\<lambda>(u1, ins2).
     bindE (ins_unpack 4 ins2) (\<lambda>(qi, ins3).
     bindE (ins_unpack 1 ins3) (\<lambda>(u2, ins4).
     bindE (read_vmad_str16 ins4) (\<lambda>(sn, ins5).
     bindE (read_vmad_str16 ins5) (\<lambda>(fn, ins6).
       Inr (\<lparr>quest_stage_qust = unpack_H q, unknown1_qust = unpack_h u1,
             quest_stage_index_qust = unpack_I qi, unknown2_qust = unpack_b u2,
             script_name_qust = sn, fragment_name_qust = fn\<rparr>, ins6)))))))"

definition FragmentQUST_dump_data :: "FragmentQUST \<Rightarrow> error + byte list" where
  "FragmentQUST_dump_data record =
     bindE (pack_H (quest_stage_qust record)) (\<lambda>q.
     bindE (pack_h (unknown1_qust record)) (\<lambda>u1.
     bindE (pack_I (quest_stage_index_qust record)) (\<lambda>qi.
     bindE (pack_b (unknown2_qust record)) (\<lambda>u2.
     bindE (dump_vmad_str16 (script_name_qust record)) (\<lambda>sn.
     bindE (dump_vmad_str16 (fragment_name_qust record)) (\<lambda>fn.
       Inr (q @ u1 @ qi @ u2 @ sn @ fn)))))))"

text \<open>
  A SCEN phase fragment. Its processors assign \<^verbatim>\<open>fragment_flags\<close>; its
  \<^verbatim>\<open>load_data\<close> then reads \<^verbatim>\<open>record.fragment_phase_flags\<close>, an attribute that no
  processor assigns. \<open>None\<close> is the attribute never assigned.
\<close>

record FragmentSCENPhase =
  fragment_flags_phase :: int
  phase_index_phase :: int
  unknown1_phase :: int
  unknown2_phase :: int
  unknown3_phase :: int
  script_name_phase :: str
  fragment_name_phase :: str
  fragment_phase_flags :: "byte option"

definition FragmentSCENPhase_load_data :: "int \<Rightarrow> int \<Rightarrow> ModReader
    \<Rightarrow> error + (FragmentSCENPhase \<times> ModReader)" where
  "FragmentSCENPhase_load_data vmad_version obj_format ins =
     bindE (ins_unpack 1 ins) (\<lambda>(ff, ins1).
     bindE (ins_unpack 1 ins1) (\<lambda>(pi, ins2).
     bindE (ins_unpack 2 ins2) (\<lambda>(u1, ins3).
     bindE (ins_unpack 1 ins3) (\<lambda>(u2, ins4).
     bindE (ins_unpack 1 ins4) (\<lambda>(u3, ins5).
     bindE (read_vmad_str16 ins5) (\<lambda>(sn, ins6).
     bindE (read_vmad_str16 ins6) (\<lambda>(fn, ins7).
     (let record = \<lparr>fragment_flags_phase = unpack_B ff, phase_index_phase = unpack_B pi,
                    unknown1_phase = unpack_h u1, unknown2_phase = unpack_b u2,
                    unknown3_phase = unpack_b u3, script_name_phase = sn,
                    fragment_name_phase = fn, fragment_phase_flags = None\<rparr>
      in case fragment_phase_flags record of
           None \<Rightarrow> Inl AttributeError
         | Some raw \<Rightarrow> Inr (record\<lparr>fragment_phase_flags := Some raw\<rparr>, ins7)))))))))"

definition FragmentSCENPhase_dump_data :: "FragmentSCENPhase \<Rightarrow> error + byte list" where
  "FragmentSCENPhase_dump_data record =
     bindE (pack_B (fragment_flags_phase record)) (\<lambda>ff.
     bindE (pack_B (phase_index_phase record)) (\<lambda>pi.
     bindE (pack_h (unknown1_phase record)) (\<lambda>u1.
     bindE (pack_b (unknown2_phase record)) (\<lambda>u2.
     bindE (pack_b (unknown3_phase record)) (\<lambda>u3.
     bindE (dump_vmad_str16 (script_name_phase record)) (\<lambda>sn.
     bindE (dump_vmad_str16 (fragment_name_phase record)) (\<lambda>fn.
       Inr (ff @ pi @ u1 @ u2 @ u3 @ sn @ fn))))))))"

section \<open>Fragment headers: the special-data handlers\<close>

definition load_child_if :: "bool \<Rightarrow> (ModReader \<Rightarrow> error + ('a \<times> ModReader)) \<Rightarrow> ModReader
    \<Rightarrow> error + ('a option \<times> ModReader)" where
  "load_child_if flag load_child ins =
     (if flag then bindE (load_child ins) (\<lambda>(child, ins1). Inr (Some child, ins1))
      else Inr (None, ins))"

definition present :: "'a option list \<Rightarrow> 'a list" where
  "present cs = List.map_filter (\<lambda>c. c) cs"

record VmadHandlerINFO =
  extra_bind_data_version_info :: int
  fragment_flags_info :: byte
  file_name_info :: str
  begin_frag_info :: "FragmentBasic option"
  end_frag_info :: "FragmentBasic option"

definition VmadHandlerINFO_load_data :: "int \<Rightarrow> int \<Rightarrow> ModReader
    \<Rightarrow> error + (VmadHandlerINFO \<times> ModReader)" where
  "VmadHandlerINFO_load_data vmad_version obj_format ins =
     bindE (ins_unpack 1 ins) (\<lambda>(e, ins1).
     bindE (ins_unpack 1 ins1) (\<lambda>(fl, ins2).
     bindE (read_vmad_str16 ins2) (\<lambda>(fname, ins3).
     (let child_flags = word_of_int (unpack_B fl)
      in bindE (load_child_if (is_flag_set child_flags 0)
                  (FragmentBasic_load_data vmad_version obj_format) ins3) (\<lambda>(b, ins4).
         bindE (load_child_if (is_flag_set child_flags 1)
                  (FragmentBasic_load_data vmad_version obj_format) ins4) (\<lambda>(en, ins5).
           Inr (\<lparr>extra_bind_data_version_info = unpack_b e,
                 fragment_flags_info = child_flags, file_name_info = fname,
                 begin_frag_info = b, end_frag_info = en\<rparr>, ins5)))))))"

definition VmadHandlerINFO_dump_data :: "VmadHandlerINFO
    \<Rightarrow> error + (VmadHandlerINFO \<times> byte list)" where
  "VmadHandlerINFO_dump_data record =
     (let child_flags1 = set_flag (fragment_flags_info record) 0
                           (begin_frag_info record \<noteq> None);
          child_flags2 = set_flag child_flags1 1 (end_frag_info record \<noteq> None);
          record1 = record\<lparr>fragment_flags_info := child_flags2\<rparr>;
          children = present [begin_frag_info record, end_frag_info record]
      in bindE (pack_b (extra_bind_data_version_info record1)) (\<lambda>e.
         bindE (pack_B (uint (fragment_flags_info record1))) (\<lambda>fl.
         bindE (dump_vmad_str16 (file_name_info record1)) (\<lambda>fname.
         bindE (dump_each FragmentBasic_dump_data children) (\<lambda>cs.
           Inr (record1, e @ fl @ fname @ cs))))))"

record VmadHandlerPACK =
  extra_bind_data_version_pack :: int
  fragment_flags_pack :: byte
  file_name_pack :: str
  begin_frag_pack :: "FragmentBasic option"
  end_frag_pack :: "FragmentBasic option"
  change_frag_pack :: "FragmentBasic option"

definition VmadHandlerPACK_load_data :: "int \<Rightarrow> int \<Rightarrow> ModReader
    \<Rightarrow> error + (VmadHandlerPACK \<times> ModReader)" where
  "VmadHandlerPACK_load_data vmad_version obj_format ins =
     bindE (ins_unpack 1 ins) (\<lambda>(e, ins1).
     bindE (ins_unpack 1 ins1) (\<lambda>(fl, ins2).
     bindE (read_vmad_str16 ins2) (\<lambda>(fname, ins3).
     (let child_flags = word_of_int (unpack_B fl)
      in bindE (load_child_if (is_flag_set child_flags 0)
                  (FragmentBasic_load_data vmad_version obj_format) ins3) (\<lambda>(b, ins4).
         bindE (load_child_if (is_flag_set child_flags 1)
                  (FragmentBasic_load_data vmad_version obj_format) ins4) (\<lambda>(en, ins5).
         bindE (load_child_if (is_flag_set child_flags 2)
                  (FragmentBasic_load_data vmad_version obj_format) ins5) (\<lambda>(ch, ins6).
           Inr (\<lparr>extra_bind_data_version_pack = unpack_b e,
                 fragment_flags_pack = child_flags, file_name_pack = fname,
                 begin_frag_pack = b, end_frag_pack = en, change_frag_pack = ch\<rparr>,
                ins6))))))))"

definition VmadHandlerPACK_dump_data :: "VmadHandlerPACK
    \<Rightarrow> error + (VmadHandlerPACK \<times> byte list)" where
  "VmadHandlerPACK_dump_data record =
     (let child_flags1 = set_flag (fragment_flags_pack record) 0
                           (begin_frag_pack record \<noteq> None);
          child_flags2 = set_flag child_flags1 1 (end_frag_pack record \<noteq> None);
          child_flags3 = set_flag child_flags2 2 (change_frag_pack record \<noteq> None);
          record1 = record\<lparr>fragment_flags_pack := child_flags3\<rparr>;
          children = present [begin_frag_pack record, end_frag_pack record,
                              change_frag_pack record]
      in bindE (pack_b (extra_bind_data_version_pack record1)) (\<lambda>e.
         bindE (pack_B (uint (fragment_flags_pack record1))) (\<lambda>fl.
         bindE (dump_vmad_str16 (file_name_pack record1)) (\<lambda>fname.
         bindE (dump_each FragmentBasic_dump_data children) (\<lambda>cs.
           Inr (record1, e @ fl @ fname @ cs))))))"

record VmadHandlerPERK =
  extra_bind_data_version_perk :: int
  file_name_perk :: str
  fragment_count_perk :: int
  fragments_perk :: "FragmentPERK list"

definition VmadHandlerPERK_load_data :: "int \<Rightarrow> int \<Rightarrow> ModReader
    \<Rightarrow> error + (VmadHandlerPERK \<times> ModReader)" where
  "VmadHandlerPERK_load_data vmad_version obj_format ins =
     bindE (ins_unpack 1 ins) (\<lambda>(e, ins1).
     bindE (read_vmad_str16 ins1) (\<lambda>(fname, ins2).
     bindE (ins_unpack 2 ins2) (\<lambda>(c, ins3).
     bindE (load_n (FragmentPERK_load_data vmad_version obj_format) (nat (unpack_H c)) ins3)
       (\<lambda>(children, ins4).
       Inr (\<lparr>extra_bind_data_version_perk = unpack_b e, file_name_perk = fname,
             fragment_count_perk = unpack_H c, fragments_perk = children\<rparr>, ins4)))))"

definition VmadHandlerPERK_dump_data :: "VmadHandlerPERK
    \<Rightarrow> error + (VmadHandlerPERK \<times> byte list)" where
  "VmadHandlerPERK_dump_data record =
     (let record1 = record\<lparr>fragment_count_perk := int (length (fragments_perk record))\<rparr>
      in bindE (pack_b (extra_bind_data_version_perk record1)) (\<lambda>e.
         bindE (dump_vmad_str16 (file_name_perk record1)) (\<lambda>fname.
         bindE (pack_H (fragment_count_perk record1)) (\<lambda>c.
         bindE (dump_each FragmentPERK_dump_data (fragments_perk record1)) (\<lambda>cs.
           Inr (record1, e @ fname @ c @ cs))))))"

record VmadHandlerQUST =
  extra_bind_data_version_qust :: int
  fragment_count_qust :: int
  file_name_qust :: str
  fragments_qust :: "FragmentQUST list"
  aliases :: "Alias list"

definition VmadHandlerQUST_load_data :: "int \<Rightarrow> int \<Rightarrow> ModReader
    \<Rightarrow> error + (VmadHandlerQUST \<times> ModReader)" where
  "VmadHandlerQUST_load_data vmad_version obj_format ins =
     bindE (ins_unpack 1 ins) (\<lambda>(e, ins1).
     bindE (ins_unpack 2 ins1) (\<lambda>(c, ins2).
     bindE (read_vmad_str16 ins2) (\<lambda>(fname, ins3).
     bindE (load_n (FragmentQUST_load_data vmad_version obj_format) (nat (unpack_H c)) ins3)
       (\<lambda>(children, ins4).
     bindE (ins_unpack 2 ins4) (\<lambda>(ac, ins5).
     bindE (load_n (Alias_load_data vmad_version obj_format) (nat (unpack_H ac)) ins5)
       (\<lambda>(als, ins6).
       Inr (\<lparr>extra_bind_data_version_qust = unpack_b e, fragment_count_qust = unpack_H c,
             file_name_qust = fname, fragments_qust = children, aliases = als\<rparr>,
            ins6)))))))"

definition VmadHandlerQUST_dump_data :: "VmadHandlerQUST
    \<Rightarrow> error + (VmadHandlerQUST \<times> byte list)" where
  "VmadHandlerQUST_dump_data record =
     (let record1 = record\<lparr>fragment_count_qust := int (length (fragments_qust record))\<rparr>
      in bindE (pack_b (extra_bind_data_version_qust record1)) (\<lambda>e.
         bindE (pack_H (fragment_count_qust record1)) (\<lambda>c.
         bindE (dump_vmad_str16 (file_name_qust record1)) (\<lambda>fname.
         bindE (dump_each FragmentQUST_dump_data (fragments_qust record1)) (\<lambda>cs.
         bindE (pack_H (int (length (aliases record1)))) (\<lambda>ac.
         bindE (dump_each_upd Alias_dump_data (aliases record1)) (\<lambda>(als, bs).
           Inr (record1\<lparr>aliases := als\<rparr>, e @ c @ fname @ cs @ ac @ bs))))))))"

definition VmadHandlerQUST_map_fids :: "(int \<Rightarrow> int) \<Rightarrow> bool \<Rightarrow> VmadHandlerQUST
    \<Rightarrow> error + (VmadHandlerQUST \<times> int list)" where
  "VmadHandlerQUST_map_fids map_function save record =
     bindE (map_each (Alias_map_fids map_function save) (aliases record))
       (\<lambda>(als, calls). Inr (record\<lparr>aliases := als\<rparr>, calls))"

record VmadHandlerSCEN =
  extra_bind_data_version_scen :: int
  fragment_flags_scen :: byte
  file_name_scen :: str
  begin_frag_scen :: "FragmentBasic option"
  end_frag_scen :: "FragmentBasic option"
  phase_fragments :: "FragmentSCENPhase list"

definition VmadHandlerSCEN_load_data :: "int \<Rightarrow> int \<Rightarrow> ModReader
    \<Rightarrow> error + (VmadHandlerSCEN \<times> ModReader)" where
  "VmadHandlerSCEN_load_data vmad_version obj_format ins =
     bindE (ins_unpack 1 ins) (\<lambda>(e, ins1).
     bindE (ins_unpack 1 ins1) (\<lambda>(fl, ins2).
     bindE (read_vmad_str16 ins2) (\<lambda>(fname, ins3).
     (let child_flags = word_of_int (unpack_B fl)
      in bindE (load_child_if (is_flag_set child_flags 0)
                  (FragmentBasic_load_data vmad_version obj_format) ins3) (\<lambda>(b, ins4).
         bindE (load_child_if (is_flag_set child_flags 1)
                  (FragmentBasic_load_data vmad_version obj_format) ins4) (\<lambda>(en, ins5).
         bindE (ins_unpack 2 ins5) (\<lambda>(frag_count, ins6).
         bindE (load_n (FragmentSCENPhase_load_data vmad_version obj_format)
                  (nat (unpack_H frag_count)) ins6) (\<lambda>(phases, ins7).
           Inr (\<lparr>extra_bind_data_version_scen = unpack_b e,
                 fragment_flags_scen = child_flags, file_name_scen = fname,
                 begin_frag_scen = b, end_frag_scen = en, phase_fragments = phases\<rparr>,
                ins7)))))))))"

definition VmadHandlerSCEN_dump_data :: "VmadHandlerSCEN
    \<Rightarrow> error + (VmadHandlerSCEN \<times> byte list)" where
  "VmadHandlerSCEN_dump_data record =
     (let child_flags1 = set_flag (fragment_flags_scen record) 0
                           (begin_frag_scen record \<noteq> None);
          child_flags2 = set_flag child_flags1 1 (end_frag_scen record \<noteq> None);
          record1 = record\<lparr>fragment_flags_scen := child_flags2\<rparr>;
          children = present [begin_frag_scen record, end_frag_scen record]
      in bindE (pack_b (extra_bind_data_version_scen record1)) (\<lambda>e.
         bindE (pack_B (uint (fragment_flags_scen record1))) (\<lambda>fl.
         bindE (dump_vmad_str16 (file_name_scen record1)) (\<lambda>fname.
         bindE (dump_each FragmentBasic_dump_data children) (\<lambda>cs.
         bindE (pack_H (int (length (phase_fragments record1)))) (\<lambda>pc.
         bindE (dump_each FragmentSCENPhase_dump_data (phase_fragments record1)) (\<lambda>ps.
           Inr (record1, e @ fl @ fname @ cs @ pc @ ps))))))))"

section \<open>The VMAD subrecord\<close>

datatype special =
    SpecialINFO VmadHandlerINFO
  | SpecialPACK VmadHandlerPACK
  | SpecialPERK VmadHandlerPERK
  | SpecialQUST VmadHandlerQUST
  | SpecialSCEN VmadHandlerSCEN

text \<open>
  The \<^verbatim>\<open>special_data\<close> attribute of a VMAD object: not assigned yet, \<^verbatim>\<open>None\<close>, a
  loaded handler instance, or an instance that \<^verbatim>\<open>make_new\<close> created and whose
  \<^verbatim>\<open>load_data\<close> raised before it was complete (what it holds is not followed).
\<close>

datatype special_attr = Unset | SpecialNone | Handler special | Partial

record MelVmadImpl =
  scripts_vmad :: "Script list option"
  special_data :: special_attr

record MreRecord =
  recType :: string
  vmdata :: "MelVmadImpl option"

definition handler_map :: "string list" where
  "handler_map = [''INFO'', ''PACK'', ''PERK'', ''QUST'', ''SCEN'']"

definition special_sig :: "special \<Rightarrow> string" where
  "special_sig sd =
     (case sd of SpecialINFO _ \<Rightarrow> ''INFO'' | SpecialPACK _ \<Rightarrow> ''PACK''
      | SpecialPERK _ \<Rightarrow> ''PERK'' | SpecialQUST _ \<Rightarrow> ''QUST'' | SpecialSCEN _ \<Rightarrow> ''SCEN'')"

text \<open>\<^verbatim>\<open>_get_special_handler(record_sig)\<close> followed by the handler's method.\<close>

definition handler_load_data :: "string \<Rightarrow> int \<Rightarrow> int \<Rightarrow> ModReader
    \<Rightarrow> error + (special \<times> ModReader)" where
  "handler_load_data record_sig vmad_version obj_format ins =
     (if record_sig = ''INFO'' then
        bindE (VmadHandlerINFO_load_data vmad_version obj_format ins)
          (\<lambda>(r, ins1). Inr (SpecialINFO r, ins1))
      else if record_sig = ''PACK'' then
        bindE (VmadHandlerPACK_load_data vmad_version obj_format ins)
          (\<lambda>(r, ins1). Inr (SpecialPACK r, ins1))
      else if record_sig = ''PERK'' then
        bindE (VmadHandlerPERK_load_data vmad_version obj_format ins)
          (\<lambda>(r, ins1). Inr (SpecialPERK r, ins1))
      else if record_sig = ''QUST'' then
        bindE (VmadHandlerQUST_load_data vmad_version obj_format ins)
          (\<lambda>(r, ins1). Inr (SpecialQUST r, ins1))
      else if record_sig = ''SCEN'' then
        bindE (VmadHandlerSCEN_load_data vmad_version obj_format ins)
          (\<lambda>(r, ins1). Inr (SpecialSCEN r, ins1))
      else Inl OutsideModel)"

definition handler_dump_data :: "string \<Rightarrow> special \<Rightarrow> error + (special \<times> byte list)" where
  "handler_dump_data record_sig sd =
     (if record_sig = ''INFO'' then
        (case sd of
           SpecialINFO r \<Rightarrow>
             bindE (VmadHandlerINFO_dump_data r) (\<lambda>(r', bs). Inr (SpecialINFO r', bs))
         | _ \<Rightarrow> Inl OutsideModel)
      else if record_sig = ''PACK'' then
        (case sd of
           SpecialPACK r \<Rightarrow>
             bindE (VmadHandlerPACK_dump_data r) (\<lambda>(r', bs). Inr (SpecialPACK r', bs))
         | _ \<Rightarrow> Inl OutsideModel)
      else if record_sig = ''PERK'' then
        (case sd of
           SpecialPERK r \<Rightarrow>
             bindE (VmadHandlerPERK_dump_data r) (\<lambda>(r', bs). Inr (SpecialPERK r', bs))
         | _ \<Rightarrow> Inl OutsideModel)
      else if record_sig = ''QUST'' then
        (case sd of
           SpecialQUST r \<Rightarrow>
             bindE (VmadHandlerQUST_dump_data r) (\<lambda>(r', bs). Inr (SpecialQUST r', bs))
         | _ \<Rightarrow> Inl OutsideModel)
      else if record_sig = ''SCEN'' then
        (case sd of
           SpecialSCEN r \<Rightarrow>
             bindE (VmadHandlerSCEN_dump_data r) (\<lambda>(r', bs). Inr (SpecialSCEN r', bs))
         | _ \<Rightarrow> Inl OutsideModel)
      else Inl OutsideModel)"

text \<open>
  Only the QUST handler overrides \<^verbatim>\<open>map_fids\<close> to reach FormIDs (through its
  aliases); the PERK handler walks its fragments, whose \<^verbatim>\<open>map_fids\<close> does nothing, and
  the fixed-slot handlers inherit the empty default.
\<close>

definition handler_map_fids :: "string \<Rightarrow> (int \<Rightarrow> int) \<Rightarrow> bool \<Rightarrow> special
    \<Rightarrow> error + (special \<times> int list)" where
  "handler_map_fids record_sig map_function save sd =
     (if record_sig = ''QUST'' then
        (case sd of
           SpecialQUST r \<Rightarrow>
             bindE (VmadHandlerQUST_map_fids map_function save r)
               (\<lambda>(r', calls). Inr (SpecialQUST r', calls))
         | _ \<Rightarrow> Inl OutsideModel)
      else if record_sig \<in> set handler_map \<and> special_sig sd = record_sig then Inr (sd, [])
      else Inl OutsideModel)"

text \<open>
  The script loop of \<^verbatim>\<open>loadData\<close> appends each script to \<^verbatim>\<open>vmad.scripts\<close> as soon as
  it is loaded, so the scripts loaded before a raise stay on the VMAD object.
\<close>

fun load_scripts :: "int \<Rightarrow> int \<Rightarrow> nat \<Rightarrow> ModReader \<Rightarrow> Script list
    \<Rightarrow> Script list \<times> (error + ModReader)" where
  "load_scripts vmad_version obj_format 0 ins acc = (acc, Inr ins)"
| "load_scripts vmad_version obj_format (Suc n) ins acc =
     (case Script_load_data vmad_version obj_format ins of
        Inl e \<Rightarrow> (acc, Inl e)
      | Inr (script, ins1) \<Rightarrow> load_scripts vmad_version obj_format n ins1 (acc @ [script]))"

text \<open>
  \<^verbatim>\<open>MelVmad.loadData(record, ins, sub_type, size_, readId)\<close>. The result is the owning
  record as the call leaves it, whether it raised or not, and the error or the reader.
  The fresh VMAD object is assigned to \<^verbatim>\<open>record.vmdata\<close> before the header is read.
\<close>

definition loadData :: "MreRecord \<Rightarrow> ModReader \<Rightarrow> nat \<Rightarrow> MreRecord \<times> (error + ModReader)" where
  "loadData record ins sz =
     (let end_of_vmad = ins_tell ins + sz;
          vmad = \<lparr>scripts_vmad = None, special_data = Unset\<rparr>;
          record0 = record\<lparr>vmdata := Some vmad\<rparr>
      in case ins_unpack 6 ins of
           Inl e \<Rightarrow> (record0, Inl e)
         | Inr (hdr, ins1) \<Rightarrow>
             (let vmad_version = unpack_h (take 2 hdr);
                  obj_format = unpack_h (take 2 (drop 2 hdr));
                  script_count = unpack_H (drop 4 hdr)
              in if vmad_version < 1 \<or> vmad_version > 5
                 then (record0, Inl (UnrecognizedVersion vmad_version))
                 else if obj_format \<noteq> 1 \<and> obj_format \<noteq> 2
                 then (record0, Inl (UnrecognizedObjectFormat obj_format))
                 else
                   (case load_scripts vmad_version obj_format (nat script_count) ins1 [] of
                      (ss, Inl e) \<Rightarrow>
                        (record\<lparr>vmdata := Some (vmad\<lparr>scripts_vmad := Some ss\<rparr>)\<rparr>, Inl e)
                    | (ss, Inr ins2) \<Rightarrow>
                        (let vmad1 = vmad\<lparr>scripts_vmad := Some ss\<rparr>
                         in if recType record \<in> set handler_map \<and> ins_tell ins2 < end_of_vmad
                            then
                              (case handler_load_data (recType record) vmad_version
                                      obj_format ins2 of
                                 Inl e \<Rightarrow>
                                   (record\<lparr>vmdata := Some (vmad1\<lparr>special_data := Partial\<rparr>)\<rparr>,
                                    Inl e)
                               | Inr (sd, ins3) \<Rightarrow>
                                   (record\<lparr>vmdata :=
                                       Some (vmad1\<lparr>special_data := Handler sd\<rparr>)\<rparr>,
                                    Inr ins3))
                            else (record\<lparr>vmdata :=
                                     Some (vmad1\<lparr>special_data := SpecialNone\<rparr>)\<rparr>,
                                  Inr ins2)))))"

text \<open>
  \<^verbatim>\<open>MelVmad.dumpData(record, out)\<close>. The result is the owning record after the call and
  the payload handed to \<^verbatim>\<open>out.packSub\<close>, or \<open>None\<close> when nothing is written.
\<close>

definition dumpData :: "MreRecord \<Rightarrow> error + (MreRecord \<times> byte list option)" where
  "dumpData record =
     (case vmdata record of
        None \<Rightarrow> Inr (record, None)
      | Some vmad \<Rightarrow>
          bindE (pack_h 5) (\<lambda>v.
          bindE (pack_h 2) (\<lambda>f.
          (case scripts_vmad vmad of
             None \<Rightarrow> Inl AttributeError
           | Some ss \<Rightarrow>
               bindE (pack_H (int (length ss))) (\<lambda>c.
               bindE (dump_each_upd Script_dump_data ss) (\<lambda>(ss', bs).
               (let vmad1 = vmad\<lparr>scripts_vmad := Some ss'\<rparr>
                in case special_data vmad of
                     Unset \<Rightarrow> Inl AttributeError
                   | SpecialNone \<Rightarrow>
                       Inr (record\<lparr>vmdata := Some vmad1\<rparr>, Some (v @ f @ c @ bs))
                   | Partial \<Rightarrow>
                       (if recType record \<in> set handler_map then Inl OutsideModel
                        else Inr (record\<lparr>vmdata := Some vmad1\<rparr>, Some (v @ f @ c @ bs)))
                   | Handler sd \<Rightarrow>
                       (if recType record \<in> set handler_map then
                          bindE (handler_dump_data (recType record) sd) (\<lambda>(sd', sbs).
                            Inr (record\<lparr>vmdata := Some (vmad1\<lparr>special_data := Handler sd'\<rparr>)\<rparr>,
                                 Some (v @ f @ c @ bs @ sbs)))
                        else Inr (record\<lparr>vmdata := Some vmad1\<rparr>,
                                  Some (v @ f @ c @ bs))))))))))"

text \<open>\<^verbatim>\<open>MelVmad.mapFids(record, function, save)\<close>.\<close>

definition mapFids :: "(int \<Rightarrow> int) \<Rightarrow> bool \<Rightarrow> MreRecord \<Rightarrow> error + (MreRecord \<times> int list)" where
  "mapFids function save record =
     (case vmdata record of
        None \<Rightarrow> Inr (record, [])
      | Some vmad \<Rightarrow>
          (case scripts_vmad vmad of
             None \<Rightarrow> Inl AttributeError
           | Some ss \<Rightarrow>
               bindE (map_each (Script_map_fids function save) ss) (\<lambda>(ss', calls).
               (let vmad1 = vmad\<lparr>scripts_vmad := Some ss'\<rparr>
                in case special_data vmad of
                     Unset \<Rightarrow> Inl AttributeError
                   | SpecialNone \<Rightarrow> Inr (record\<lparr>vmdata := Some vmad1\<rparr>, calls)
                   | Partial \<Rightarrow>
                       (if recType record \<in> set handler_map then Inl OutsideModel
                        else Inr (record\<lparr>vmdata := Some vmad1\<rparr>, calls))
                   | Handler sd \<Rightarrow>
                       (if recType record \<in> set handler_map then
                          bindE (handler_map_fids (recType record) function save sd)
                            (\<lambda>(sd', calls1).
                            Inr (record\<lparr>vmdata := Some (vmad1\<lparr>special_data := Handler sd'\<rparr>)\<rparr>,
                                 calls @ calls1))
                        else Inr (record\<lparr>vmdata := Some vmad1\<rparr>, calls))))))"

section \<open>The reference-bearing leaves of a tree, as the specification lists them\<close>

text \<open>
  The leaves that carry an object reference: the payload of a type-1 property, the
  elements of a type-11 property, the embedded reference of an alias, and the leaves of
  every script reached through an alias. \<open>blank\<close> overwrites the FormID of each such leaf
  with 0: two trees with the same blank differ in the FormIDs of those leaves at most.
\<close>

definition property_refs :: "Property \<Rightarrow> ObjectRef list" where
  "property_refs p =
     (if prop_type p = 1 then (case prop_data p of PObject r \<Rightarrow> [r] | _ \<Rightarrow> [])
      else if prop_type p = 11 then (case prop_data p of PObjectArray rs \<Rightarrow> rs | _ \<Rightarrow> [])
      else [])"

definition script_refs :: "Script \<Rightarrow> ObjectRef list" where
  "script_refs s = concat (map property_refs (properties s))"

definition alias_refs :: "Alias \<Rightarrow> ObjectRef list" where
  "alias_refs a = alias_ref_obj a # concat (map script_refs (scripts a))"

definition special_refs :: "special_attr \<Rightarrow> ObjectRef list" where
  "special_refs sa =
     (case sa of Handler (SpecialQUST q) \<Rightarrow> concat (map alias_refs (aliases q)) | _ \<Rightarrow> [])"

definition tree_refs :: "MreRecord \<Rightarrow> ObjectRef list" where
  "tree_refs record =
     (case vmdata record of
        None \<Rightarrow> []
      | Some vmad \<Rightarrow>
          (case scripts_vmad vmad of None \<Rightarrow> [] | Some ss \<Rightarrow> concat (map script_refs ss))
          @ special_refs (special_data vmad))"

definition blank_ref :: "ObjectRef \<Rightarrow> ObjectRef" where
  "blank_ref r = r\<lparr>fid := 0\<rparr>"

definition blank_property :: "Property \<Rightarrow> Property" where
  "blank_property p =
     (if prop_type p = 1 then
        (case prop_data p of PObject r \<Rightarrow> p\<lparr>prop_data := PObject (blank_ref r)\<rparr> | _ \<Rightarrow> p)
      else if prop_type p = 11 then
        (case prop_data p of
           PObjectArray rs \<Rightarrow> p\<lparr>prop_data := PObjectArray (map blank_ref rs)\<rparr>
         | _ \<Rightarrow> p)
      else p)"

definition blank_script :: "Script \<Rightarrow> Script" where
  "blank_script s = s\<lparr>properties := map blank_property (properties s)\<rparr>"

definition blank_alias :: "Alias \<Rightarrow> Alias" where
  "blank_alias a = a\<lparr>alias_ref_obj := blank_ref (alias_ref_obj a),
                     scripts := map blank_script (scripts a)\<rparr>"

definition blank_special :: "special_attr \<Rightarrow> special_attr" where
  "blank_special sa =
     (case sa of
        Handler (SpecialQUST q) \<Rightarrow>
          Handler (SpecialQUST (q\<lparr>aliases := map blank_alias (aliases q)\<rparr>))
      | _ \<Rightarrow> sa)"

definition blank_tree :: "MreRecord \<Rightarrow> MreRecord" where
  "blank_tree record =
     (case vmdata record of
        None \<Rightarrow> record
      | Some vmad \<Rightarrow>
          record\<lparr>vmdata := Some \<lparr>scripts_vmad = map_option (map blank_script) (scripts_vmad vmad),
                                 special_data = blank_special (special_data vmad)\<rparr>\<rparr>)"

text \<open>
  The special data of a tree fits its owning record when a loaded handler instance is of
  the record's own type, which is one of the five with a handler.
\<close>

definition special_fits :: "MreRecord \<Rightarrow> bool" where
  "special_fits record =
     (case vmdata record of
        None \<Rightarrow> True
      | Some vmad \<Rightarrow>
          (case special_data vmad of
             Handler sd \<Rightarrow> special_sig sd = recType record
           | _ \<Rightarrow> True))"

section \<open>Sample properties\<close>






section \<open>What a mapping pass may change, and a sample tree\<close>

text \<open>
  \<open>remapped f save rs rs'\<close>: the FormIDs of the references \<open>rs'\<close> are those of \<open>rs\<close>
  sent through \<open>f\<close> in save mode, and those of \<open>rs\<close> otherwise.
\<close>

definition remapped :: "(int \<Rightarrow> int) \<Rightarrow> bool \<Rightarrow> ObjectRef list \<Rightarrow> ObjectRef list \<Rightarrow> bool" where
  "remapped f save rs rs' =
     (map fid rs' = (if save then map f (map fid rs) else map fid rs))"

text \<open>
  A QUST record with one script (an object property, an integer property and an object
  array property), one QUST fragment and one alias that has a script of its own. Its
  stored counts are stale on purpose, and the alias was read as version 3, format 1.
\<close>

definition sample_script :: Script where
  "sample_script =
     \<lparr>script_name = [0x53], script_flags = 0, property_count = 9,
      properties =
        [\<lparr>prop_name = [0x50], prop_type = 1, prop_flags = 1,
          prop_data = PObject \<lparr>aid = -1, fid = 20\<rparr>\<rparr>,
         \<lparr>prop_name = [0x51], prop_type = 3, prop_flags = 1, prop_data = PSint32 7\<rparr>,
         \<lparr>prop_name = [0x52], prop_type = 11, prop_flags = 1,
          prop_data = PObjectArray [\<lparr>aid = 0, fid = 21\<rparr>]\<rparr>]\<rparr>"

definition sample_alias :: Alias where
  "sample_alias =
     \<lparr>alias_ref_obj = \<lparr>aid = 3, fid = 22\<rparr>, alias_vmad_version = 3, alias_obj_format = 1,
      script_count = 0,
      scripts =
        [\<lparr>script_name = [0x54], script_flags = 0, property_count = 0,
          properties =
            [\<lparr>prop_name = [0x55], prop_type = 1, prop_flags = 1,
              prop_data = PObject \<lparr>aid = -2, fid = 23\<rparr>\<rparr>]\<rparr>]\<rparr>"

definition sample_record :: MreRecord where
  "sample_record =
     \<lparr>recType = ''QUST'',
      vmdata = Some
        \<lparr>scripts_vmad = Some [sample_script],
         special_data = Handler (SpecialQUST
           \<lparr>extra_bind_data_version_qust = 2, fragment_count_qust = 7, file_name_qust = [0x51],
            fragments_qust =
              [\<lparr>quest_stage_qust = 10, unknown1_qust = 0, quest_stage_index_qust = 1,
                unknown2_qust = 1, script_name_qust = [0x53], fragment_name_qust = [0x46]\<rparr>],
            aliases = [sample_alias]\<rparr>)\<rparr>\<rparr>"



section \<open>Decodable text, and sample SCEN special data\<close>

text \<open>
  A text can be read back when none of its code units is one of the five that cp1252
  leaves undefined. \<open>sample_scen\<close> is SCEN special data with a begin fragment, no end
  fragment and one phase fragment.
\<close>

definition decodable :: "str \<Rightarrow> bool" where
  "decodable s = (\<not> list_ex (\<lambda>b. b \<in> set cp1252_undefined) s)"

definition frag_decodable :: "FragmentBasic option \<Rightarrow> bool" where
  "frag_decodable oc =
     (case oc of None \<Rightarrow> True
      | Some c \<Rightarrow> decodable (script_name_basic c) \<and> decodable (fragment_name_basic c))"

definition sample_scen :: VmadHandlerSCEN where
  "sample_scen =
     \<lparr>extra_bind_data_version_scen = 1, fragment_flags_scen = 2, file_name_scen = [],
      begin_frag_scen = Some \<lparr>unknown1_basic = 0, script_name_basic = [0x53],
                               fragment_name_basic = [0x46]\<rparr>,
      end_frag_scen = None,
      phase_fragments =
        [\<lparr>fragment_flags_phase = 1, phase_index_phase = 0, unknown1_phase = 0,
          unknown2_phase = 0, unknown3_phase = 0, script_name_phase = [0x53],
          fragment_name_phase = [0x47], fragment_phase_flags = None\<rparr>]\<rparr>"

section \<open>Trees as a load builds them\<close>

text \<open>
  A property's payload fits when a type-1 property holds an object reference and a
  type-11 property a list of them. A tree fits when its script list and its special data
  are assigned, every payload fits, and a special-data handler instance is of the owning
  record's type.
\<close>

definition payload_fits :: "Property \<Rightarrow> bool" where
  "payload_fits p =
     (if prop_type p = 1 then (case prop_data p of PObject _ \<Rightarrow> True | _ \<Rightarrow> False)
      else if prop_type p = 11 then (case prop_data p of PObjectArray _ \<Rightarrow> True | _ \<Rightarrow> False)
      else True)"

definition script_fits :: "Script \<Rightarrow> bool" where
  "script_fits s = list_all payload_fits (properties s)"

definition alias_fits :: "Alias \<Rightarrow> bool" where
  "alias_fits a = list_all script_fits (scripts a)"

definition handler_fits :: "string \<Rightarrow> special \<Rightarrow> bool" where
  "handler_fits record_sig sd =
     (special_sig sd = record_sig
      \<and> (case sd of SpecialQUST q \<Rightarrow> list_all alias_fits (aliases q) | _ \<Rightarrow> True))"

definition tree_fits :: "MreRecord \<Rightarrow> bool" where
  "tree_fits owner =
     (case vmdata owner of
        None \<Rightarrow> True
      | Some vmad \<Rightarrow>
          (case scripts_vmad vmad of None \<Rightarrow> False | Some ss \<Rightarrow> list_all script_fits ss)
          \<and> (case special_data vmad of
                Unset \<Rightarrow> False
              | SpecialNone \<Rightarrow> True
              | Partial \<Rightarrow> False
              | Handler sd \<Rightarrow> handler_fits (recType owner) sd))"

section \<open>Payloads of the shape of their tag\<close>



section \<open>Facts about the stream and the struct formats\<close>

lemmas reader_defs = ins_unpack_def ins_read_def ins_seek_def ins_tell_def
lemmas unpack_defs = unpack_B_def unpack_b_def unpack_H_def unpack_h_def unpack_I_def
  unpack_i_def unpack_f_def
lemmas pack_defs = pack_B_def pack_b_def pack_H_def pack_h_def pack_I_def pack_i_def
  pack_f_def bytes1_def bytes2_def bytes4_def

lemma uint_byte_of_int: "uint (word_of_int n :: byte) = n mod 256"
  by (simp add: uint_word_of_int)

lemma le_uint_bytes1: "le_uint (bytes1 n) = n mod 256"
  by (simp add: bytes1_def uint_byte_of_int)

lemma le_uint_bytes2: "le_uint (bytes2 n) = n mod 65536"
proof -
  have "n mod (256 * 256) = 256 * (n div 256 mod 256) + n mod 256"
    by (rule zmod_zmult2_eq) simp
  then show ?thesis by (simp add: bytes2_def uint_byte_of_int)
qed

lemma le_uint_bytes4: "le_uint (bytes4 n) = n mod 4294967296"
proof -
  have h1: "n mod 4294967296 = 65536 * (n div 65536 mod 65536) + n mod 65536"
    using zmod_zmult2_eq [of 65536 n 65536] by simp
  have h2: "n mod 65536 = 256 * (n div 256 mod 256) + n mod 256"
    using zmod_zmult2_eq [of 256 n 256] by simp
  have h3: "(n div 65536) mod 65536 = 256 * (n div 65536 div 256 mod 256) + n div 65536 mod 256"
    using zmod_zmult2_eq [of 256 "n div 65536" 256] by simp
  have h4: "n div 65536 div 256 = n div 16777216"
    using zdiv_zmult2_eq [of n 65536 256] by simp
  have "le_uint (bytes4 n) = n mod 256 + 256 * (n div 256 mod 256 + 256 * (n div 65536 mod 256 + 256 * (n div 16777216 mod 256)))"
    unfolding bytes4_def le_uint.simps uint_byte_of_int by simp
  also have "\<dots> = n mod 4294967296"
    unfolding h1 h2 h3 h4 by (simp add: algebra_simps)
  finally show ?thesis .
qed

lemma unpack_h_bytes2: "-32768 \<le> n \<Longrightarrow> n \<le> 32767 \<Longrightarrow> unpack_h (bytes2 n) = n"
proof (cases "0 \<le> n")
  case True
  assume "n \<le> 32767"
  with True have "n mod 65536 = n" by simp
  with True \<open>n \<le> 32767\<close> show ?thesis by (simp add: unpack_h_def le_uint_bytes2)
next
  case False
  assume "-32768 \<le> n"
  with False have "(n + 65536) mod 65536 = n + 65536" by (intro mod_pos_pos_trivial) auto
  then have "n mod 65536 = n + 65536" by simp
  with False \<open>-32768 \<le> n\<close> show ?thesis by (simp add: unpack_h_def le_uint_bytes2)
qed

lemma unpack_H_bytes2: "0 \<le> n \<Longrightarrow> n \<le> 65535 \<Longrightarrow> unpack_H (bytes2 n) = n"
  unfolding unpack_H_def le_uint_bytes2 by simp

lemma unpack_I_bytes4: "0 \<le> n \<Longrightarrow> n \<le> 4294967295 \<Longrightarrow> unpack_I (bytes4 n) = n"
  unfolding unpack_I_def le_uint_bytes4 by simp

lemma length_bytes: "length (bytes1 n) = 1" "length (bytes2 n) = 2" "length (bytes4 n) = 4"
  by (simp_all add: bytes1_def bytes2_def bytes4_def)

lemma ins_unpack_at:
  "length bs = k \<Longrightarrow>
   ins_unpack k \<lparr>ins_data = pre @ bs @ post, ins_pos = length pre\<rparr>
     = Inr (bs, \<lparr>ins_data = pre @ bs @ post, ins_pos = length pre + k\<rparr>)"
  by (simp add: ins_unpack_def)

lemma dump_out_Inr:
  "dump_out r = Inr bs \<Longrightarrow>
   bs = [0, 0] @ bytes2 (aid r) @ bytes4 (fid r) \<and> -32768 \<le> aid r \<and> aid r \<le> 32767
     \<and> 0 \<le> fid r \<and> fid r \<le> 4294967295"
  by (auto simp: dump_out_def pack_H_def pack_h_def pack_I_def bytes2_def split: if_splits)

section \<open>C4: the wire layout of an object reference\<close>

text \<open>
  Claim C4. An object reference is read from exactly 8 bytes and written as exactly 8
  bytes. Under object format 1 the bytes are read as FormID, alias id, 2 unused bytes;
  under object format 2 as 2 unused bytes, alias id, FormID. A reader with fewer than 8
  bytes left fails. \<open>dump_out\<close> always writes the format-2 order with the unused word
  0, so reading its output back under format 2 gives the reference again.
\<close>

theorem ObjectRef_wire_layout:
  "from_file 1 \<lparr>ins_data = pre @ [f0, f1, f2, f3, a0, a1, p0, p1] @ post, ins_pos = length pre\<rparr>
     = Inr (\<lparr>aid = unpack_h [a0, a1], fid = unpack_I [f0, f1, f2, f3]\<rparr>,
            \<lparr>ins_data = pre @ [f0, f1, f2, f3, a0, a1, p0, p1] @ post,
             ins_pos = length pre + 8\<rparr>)
   \<and> from_file 2 \<lparr>ins_data = pre @ [p0, p1, a0, a1, f0, f1, f2, f3] @ post, ins_pos = length pre\<rparr>
     = Inr (\<lparr>aid = unpack_h [a0, a1], fid = unpack_I [f0, f1, f2, f3]\<rparr>,
            \<lparr>ins_data = pre @ [p0, p1, a0, a1, f0, f1, f2, f3] @ post,
             ins_pos = length pre + 8\<rparr>)
   \<and> (length (ins_data ins) < ins_pos ins + 8 \<longrightarrow> from_file obj_format ins = Inl ModReadError)
   \<and> (dump_out r = Inr bs \<longrightarrow>
        bs = [0, 0] @ bytes2 (aid r) @ bytes4 (fid r) \<and> length bs = 8
        \<and> from_file 2 \<lparr>ins_data = bs, ins_pos = 0\<rparr> = Inr (r, \<lparr>ins_data = bs, ins_pos = 8\<rparr>))"
proof (intro conjI impI)
  show "from_file 1 \<lparr>ins_data = pre @ [f0, f1, f2, f3, a0, a1, p0, p1] @ post, ins_pos = length pre\<rparr>
     = Inr (\<lparr>aid = unpack_h [a0, a1], fid = unpack_I [f0, f1, f2, f3]\<rparr>,
            \<lparr>ins_data = pre @ [f0, f1, f2, f3, a0, a1, p0, p1] @ post,
             ins_pos = length pre + 8\<rparr>)"
    by (simp add: from_file_def ins_unpack_def)
  show "from_file 2 \<lparr>ins_data = pre @ [p0, p1, a0, a1, f0, f1, f2, f3] @ post, ins_pos = length pre\<rparr>
     = Inr (\<lparr>aid = unpack_h [a0, a1], fid = unpack_I [f0, f1, f2, f3]\<rparr>,
            \<lparr>ins_data = pre @ [p0, p1, a0, a1, f0, f1, f2, f3] @ post,
             ins_pos = length pre + 8\<rparr>)"
    by (simp add: from_file_def ins_unpack_def)
  show "from_file obj_format ins = Inl ModReadError" if "length (ins_data ins) < ins_pos ins + 8"
    using that by (simp add: from_file_def ins_unpack_def)
next
  assume d: "dump_out r = Inr bs"
  note f = dump_out_Inr [OF d]
  from f show "bs = [0, 0] @ bytes2 (aid r) @ bytes4 (fid r)" by simp
  from f show "length bs = 8" by (simp add: length_bytes)
  show "from_file 2 \<lparr>ins_data = bs, ins_pos = 0\<rparr> = Inr (r, \<lparr>ins_data = bs, ins_pos = 8\<rparr>)"
    using f
    by (simp add: from_file_def ins_unpack_def length_bytes unpack_h_bytes2 unpack_I_bytes4)
qed

theorem ObjectRef_wire_layout_witness:
  "dump_out \<lparr>aid = -2, fid = 66051\<rparr> = Inr [0, 0, 0xFE, 0xFF, 3, 2, 1, 0]
   \<and> from_file 2 \<lparr>ins_data = [0, 0, 0xFE, 0xFF, 3, 2, 1, 0], ins_pos = 0\<rparr>
       = Inr (\<lparr>aid = -2, fid = 66051\<rparr>, \<lparr>ins_data = [0, 0, 0xFE, 0xFF, 3, 2, 1, 0], ins_pos = 8\<rparr>)
   \<and> from_file 2 \<lparr>ins_data = [0, 0, 0xFE], ins_pos = 0\<rparr> = Inl ModReadError"
proof -
  have d: "dump_out \<lparr>aid = -2, fid = 66051\<rparr> = Inr [0, 0, 0xFE, 0xFF, 3, 2, 1, 0]"
    by (simp add: dump_out_def pack_defs)
  have s: "length (ins_data \<lparr>ins_data = [0, 0, 0xFE :: byte], ins_pos = 0\<rparr>)
            < ins_pos \<lparr>ins_data = [0, 0, 0xFE :: byte], ins_pos = 0\<rparr> + 8"
    by simp
  note w = ObjectRef_wire_layout [where ins = "\<lparr>ins_data = [0, 0, 0xFE], ins_pos = 0\<rparr>"
      and obj_format = 2 and r = "\<lparr>aid = -2, fid = 66051\<rparr>"
      and bs = "[0, 0, 0xFE, 0xFF, 3, 2, 1, 0]"]
  from w d have "from_file 2 \<lparr>ins_data = [0, 0, 0xFE, 0xFF, 3, 2, 1, 0], ins_pos = 0\<rparr>
       = Inr (\<lparr>aid = -2, fid = 66051\<rparr>, \<lparr>ins_data = [0, 0, 0xFE, 0xFF, 3, 2, 1, 0], ins_pos = 8\<rparr>)"
    by blast
  moreover from w s have "from_file 2 \<lparr>ins_data = [0, 0, 0xFE], ins_pos = 0\<rparr> = Inl ModReadError"
    by blast
  ultimately show ?thesis using d by blast
qed


section \<open>C3: the VMAD header\<close>

text \<open>
  Claim C3, as the code has it. With the six header bytes in the stream, \<open>loadData\<close>
  raises \<open>UnrecognizedVersion\<close> when the version is outside 1 to 5 and
  \<open>UnrecognizedObjectFormat\<close> when the version is fine and the object format is
  neither 1 nor 2. At that point the owning record's \<open>vmdata\<close> has already been
  replaced by a fresh VMAD object on which neither the scripts nor the special data are
  assigned. A header with a version from 1 to 5, object format 1 or 2 and script count 0
  loads with an empty script list and no special data when the subrecord ends with the
  header or the record type has no special handler.
\<close>

theorem loadData_header:
  "let ins = \<lparr>ins_data = pre @ [vlo, vhi, flo, fhi, clo, chi] @ post, ins_pos = length pre\<rparr>;
       version = unpack_h [vlo, vhi];
       fmt = unpack_h [flo, fhi];
       fresh = owner\<lparr>vmdata := Some \<lparr>scripts_vmad = None, special_data = Unset\<rparr>\<rparr>
   in (version < 1 \<or> version > 5 \<longrightarrow>
         loadData owner ins sz = (fresh, Inl (UnrecognizedVersion version)))
    \<and> (1 \<le> version \<and> version \<le> 5 \<and> fmt \<noteq> 1 \<and> fmt \<noteq> 2 \<longrightarrow>
         loadData owner ins sz = (fresh, Inl (UnrecognizedObjectFormat fmt)))
    \<and> (1 \<le> version \<and> version \<le> 5 \<and> (fmt = 1 \<or> fmt = 2) \<and> unpack_H [clo, chi] = 0
          \<and> (sz \<le> 6 \<or> recType owner \<notin> set handler_map) \<longrightarrow>
         loadData owner ins sz
           = (owner\<lparr>vmdata := Some \<lparr>scripts_vmad = Some [], special_data = SpecialNone\<rparr>\<rparr>,
              Inr (ins\<lparr>ins_pos := length pre + 6\<rparr>)))"
  unfolding Let_def
proof (intro conjI impI)
  let ?ins = "\<lparr>ins_data = pre @ [vlo, vhi, flo, fhi, clo, chi] @ post, ins_pos = length pre\<rparr>"
  show "loadData owner ?ins sz
      = (owner\<lparr>vmdata := Some \<lparr>scripts_vmad = None, special_data = Unset\<rparr>\<rparr>,
         Inl (UnrecognizedVersion (unpack_h [vlo, vhi])))"
    if "unpack_h [vlo, vhi] < 1 \<or> 5 < unpack_h [vlo, vhi]"
    using that by (auto simp add: loadData_def ins_unpack_def Let_def)
  show "loadData owner ?ins sz
      = (owner\<lparr>vmdata := Some \<lparr>scripts_vmad = None, special_data = Unset\<rparr>\<rparr>,
         Inl (UnrecognizedObjectFormat (unpack_h [flo, fhi])))"
    if "1 \<le> unpack_h [vlo, vhi] \<and> unpack_h [vlo, vhi] \<le> 5 \<and> unpack_h [flo, fhi] \<noteq> 1
          \<and> unpack_h [flo, fhi] \<noteq> 2"
    using that by (auto simp add: loadData_def ins_unpack_def Let_def)
  show "loadData owner ?ins sz
      = (owner\<lparr>vmdata := Some \<lparr>scripts_vmad = Some [], special_data = SpecialNone\<rparr>\<rparr>,
         Inr (?ins\<lparr>ins_pos := length pre + 6\<rparr>))"
    if "1 \<le> unpack_h [vlo, vhi] \<and> unpack_h [vlo, vhi] \<le> 5
          \<and> (unpack_h [flo, fhi] = 1 \<or> unpack_h [flo, fhi] = 2) \<and> unpack_H [clo, chi] = 0
          \<and> (sz \<le> 6 \<or> recType owner \<notin> set handler_map)"
    using that by (auto simp add: loadData_def ins_unpack_def Let_def ins_tell_def)
qed

theorem loadData_header_witness:
  "loadData \<lparr>recType = ''QUST'', vmdata = None\<rparr> \<lparr>ins_data = [6, 0, 2, 0, 0, 0], ins_pos = 0\<rparr> 6
     = (\<lparr>recType = ''QUST'', vmdata = Some \<lparr>scripts_vmad = None, special_data = Unset\<rparr>\<rparr>,
        Inl (UnrecognizedVersion 6))
   \<and> loadData \<lparr>recType = ''QUST'', vmdata = None\<rparr> \<lparr>ins_data = [5, 0, 3, 0, 0, 0], ins_pos = 0\<rparr> 6
     = (\<lparr>recType = ''QUST'', vmdata = Some \<lparr>scripts_vmad = None, special_data = Unset\<rparr>\<rparr>,
        Inl (UnrecognizedObjectFormat 3))
   \<and> loadData \<lparr>recType = ''QUST'', vmdata = None\<rparr> \<lparr>ins_data = [1, 0, 1, 0, 0, 0], ins_pos = 0\<rparr> 6
     = (\<lparr>recType = ''QUST'', vmdata = Some \<lparr>scripts_vmad = Some [], special_data = SpecialNone\<rparr>\<rparr>,
        Inr \<lparr>ins_data = [1, 0, 1, 0, 0, 0], ins_pos = 6\<rparr>)"
  using loadData_header [where pre = "[]" and post = "[]" and sz = 6
      and owner = "\<lparr>recType = ''QUST'', vmdata = None\<rparr>"
      and vlo = 6 and vhi = 0 and flo = 2 and fhi = 0 and clo = 0 and chi = 0]
    loadData_header [where pre = "[]" and post = "[]" and sz = 6
      and owner = "\<lparr>recType = ''QUST'', vmdata = None\<rparr>"
      and vlo = 5 and vhi = 0 and flo = 3 and fhi = 0 and clo = 0 and chi = 0]
    loadData_header [where pre = "[]" and post = "[]" and sz = 6
      and owner = "\<lparr>recType = ''QUST'', vmdata = None\<rparr>"
      and vlo = 1 and vhi = 0 and flo = 1 and fhi = 0 and clo = 0 and chi = 0]
  by (simp add: Let_def unpack_defs)

text \<open>
  The claim as stated fails twice. A header failure does leave something on the owning
  record: a record without VMAD data holds a VMAD object after the failed call. And a
  header with version 5, object format 2 and no scripts does not always load without
  special data: on an INFO record whose subrecord goes on after the header, the rest is
  loaded as special data.
\<close>

theorem loadData_header_failure_counterexample:
  "loadData \<lparr>recType = ''ACTI'', vmdata = None\<rparr> \<lparr>ins_data = [0, 0, 2, 0, 0, 0], ins_pos = 0\<rparr> 6
     = (\<lparr>recType = ''ACTI'', vmdata = Some \<lparr>scripts_vmad = None, special_data = Unset\<rparr>\<rparr>,
        Inl (UnrecognizedVersion 0))
   \<and> vmdata (fst (loadData \<lparr>recType = ''ACTI'', vmdata = None\<rparr>
                     \<lparr>ins_data = [0, 0, 2, 0, 0, 0], ins_pos = 0\<rparr> 6))
       \<noteq> vmdata \<lparr>recType = ''ACTI'', vmdata = None\<rparr>
   \<and> loadData \<lparr>recType = ''INFO'', vmdata = None\<rparr>
         \<lparr>ins_data = [5, 0, 2, 0, 0, 0, 1, 0, 0, 0], ins_pos = 0\<rparr> 10
     = (\<lparr>recType = ''INFO'',
         vmdata = Some \<lparr>scripts_vmad = Some [],
                        special_data = Handler (SpecialINFO
                          \<lparr>extra_bind_data_version_info = 1, fragment_flags_info = 0,
                           file_name_info = [], begin_frag_info = None,
                           end_frag_info = None\<rparr>)\<rparr>\<rparr>,
        Inr \<lparr>ins_data = [5, 0, 2, 0, 0, 0, 1, 0, 0, 0], ins_pos = 10\<rparr>)"
  by (simp add: loadData_def Let_def reader_defs unpack_defs handler_map_def
      handler_load_data_def VmadHandlerINFO_load_data_def load_child_if_def is_flag_set_def
      flag_mask_def read_vmad_str16_def cp1252_decode_def cp1252_undefined_def)

section \<open>Facts about loading properties\<close>

lemma str16_bytes:
  assumes "length s \<le> 65535"
  shows "dump_vmad_str16 s = Inr (bytes2 (int (length s)) @ s)"
  using assms by (simp add: dump_vmad_str16_def pack_H_def)

lemma read_vmad_str16_at:
  assumes "length s \<le> 65535" and "\<not> list_ex (\<lambda>b. b \<in> set cp1252_undefined) s"
  shows "read_vmad_str16 \<lparr>ins_data = pre @ bytes2 (int (length s)) @ s @ post, ins_pos = length pre\<rparr>
    = Inr (s, \<lparr>ins_data = pre @ bytes2 (int (length s)) @ s @ post,
              ins_pos = length pre + 2 + length s\<rparr>)"
proof -
  let ?d = "pre @ bytes2 (int (length s)) @ s @ post"
  have a: "ins_unpack 2 \<lparr>ins_data = ?d, ins_pos = length pre\<rparr>
      = Inr (bytes2 (int (length s)), \<lparr>ins_data = ?d, ins_pos = length pre + 2\<rparr>)"
    by (simp add: ins_unpack_def length_bytes)
  have n: "nat (unpack_H (bytes2 (int (length s)))) = length s"
    using assms(1) by (simp add: unpack_H_bytes2)
  have b: "ins_read (length s) \<lparr>ins_data = ?d, ins_pos = length pre + 2\<rparr>
      = Inr (s, \<lparr>ins_data = ?d, ins_pos = length pre + 2 + length s\<rparr>)"
    by (simp add: ins_read_def length_bytes)
  show ?thesis
    unfolding read_vmad_str16_def a bindE.simps prod.case n b
    using assms(2) by (simp add: cp1252_decode_def)
qed

lemma word_of_uint_byte: "word_of_int (unpack_B [b]) = (b :: byte)"
  by (simp add: unpack_B_def)

lemma Property_load_data_new:
  assumes "length name \<le> 65535" and "\<not> list_ex (\<lambda>b. b \<in> set cp1252_undefined) name"
    and "4 \<le> v"
  shows "Property_load_data v fmt
        \<lparr>ins_data = pre @ bytes2 (int (length name)) @ name @ [t, fl] @ rest, ins_pos = length pre\<rparr>
      = bindE (load_prop_data (uint t) fmt
                \<lparr>ins_data = pre @ bytes2 (int (length name)) @ name @ [t, fl] @ rest,
                 ins_pos = length pre + 2 + length name + 2\<rparr>)
          (\<lambda>(d, ins1). Inr (\<lparr>prop_name = name, prop_type = uint t, prop_flags = fl,
                               prop_data = d\<rparr>, ins1))"
  unfolding Property_load_data_def
    read_vmad_str16_at [OF assms(1) assms(2), of pre "[t, fl] @ rest"] bindE.simps prod.case
  using assms(3) by (simp add: ins_unpack_def length_bytes unpack_B_def)

lemma Property_load_data_old:
  assumes "length name \<le> 65535" and "\<not> list_ex (\<lambda>b. b \<in> set cp1252_undefined) name"
    and "v \<le> 3"
  shows "Property_load_data v fmt
        \<lparr>ins_data = pre @ bytes2 (int (length name)) @ name @ [t] @ rest, ins_pos = length pre\<rparr>
      = bindE (load_prop_data (uint t) fmt
                \<lparr>ins_data = pre @ bytes2 (int (length name)) @ name @ [t] @ rest,
                 ins_pos = length pre + 2 + length name + 1\<rparr>)
          (\<lambda>(d, ins1). Inr (\<lparr>prop_name = name, prop_type = uint t, prop_flags = 1,
                               prop_data = d\<rparr>, ins1))"
  unfolding Property_load_data_def
    read_vmad_str16_at [OF assms(1) assms(2), of pre "[t] @ rest"] bindE.simps prod.case
  using assms(3) by (simp add: ins_unpack_def length_bytes unpack_B_def)

lemmas eval_defs = Property_load_data_def load_prop_data_def Property_dump_data_def
  dump_prop_data_def read_vmad_str16_def dump_vmad_str16_def cp1252_decode_def
  cp1252_undefined_def from_file_def array_from_file_def dump_out_def dump_array_def
  reader_defs unpack_defs pack_defs











section \<open>C8: the flags of a property depend on the VMAD version\<close>

text \<open>
  Claim C8. A property starts with its name and its type tag. Under VMAD version 4 or
  later the byte after the type tag is read as the property's flags and the payload
  starts after it. Under version 3 or earlier no flags byte is read: the payload starts
  right after the type tag and the flags are 1, which is the \<^verbatim>\<open>edited\<close> bit (bit 0) and
  nothing else.
\<close>

theorem Property_flags_by_version:
  "length name \<le> 65535 \<and> \<not> list_ex (\<lambda>b. b \<in> set cp1252_undefined) name \<longrightarrow>
   (4 \<le> v \<longrightarrow>
      Property_load_data v fmt
        \<lparr>ins_data = pre @ bytes2 (int (length name)) @ name @ [t, fl] @ rest, ins_pos = length pre\<rparr>
      = bindE (load_prop_data (uint t) fmt
                \<lparr>ins_data = pre @ bytes2 (int (length name)) @ name @ [t, fl] @ rest,
                 ins_pos = length pre + 2 + length name + 2\<rparr>)
          (\<lambda>(d, ins1). Inr (\<lparr>prop_name = name, prop_type = uint t, prop_flags = fl,
                               prop_data = d\<rparr>, ins1)))
   \<and> (v \<le> 3 \<longrightarrow>
      Property_load_data v fmt
        \<lparr>ins_data = pre @ bytes2 (int (length name)) @ name @ [t] @ rest, ins_pos = length pre\<rparr>
      = bindE (load_prop_data (uint t) fmt
                \<lparr>ins_data = pre @ bytes2 (int (length name)) @ name @ [t] @ rest,
                 ins_pos = length pre + 2 + length name + 1\<rparr>)
          (\<lambda>(d, ins1). Inr (\<lparr>prop_name = name, prop_type = uint t, prop_flags = 1,
                               prop_data = d\<rparr>, ins1))
      \<and> is_flag_set 1 0 \<and> \<not> is_flag_set 1 1)"
  by (auto simp: Property_load_data_new Property_load_data_old is_flag_set_def flag_mask_def
      simp del: append.simps)

theorem Property_flags_by_version_witness:
  "Property_load_data 5 2 \<lparr>ins_data = [1, 0, 0x50, 3, 2, 7, 0, 0, 0], ins_pos = 0\<rparr>
     = Inr (\<lparr>prop_name = [0x50], prop_type = 3, prop_flags = 2, prop_data = PSint32 7\<rparr>,
            \<lparr>ins_data = [1, 0, 0x50, 3, 2, 7, 0, 0, 0], ins_pos = 9\<rparr>)
   \<and> Property_load_data 3 2 \<lparr>ins_data = [1, 0, 0x50, 3, 7, 0, 0, 0], ins_pos = 0\<rparr>
     = Inr (\<lparr>prop_name = [0x50], prop_type = 3, prop_flags = 1, prop_data = PSint32 7\<rparr>,
            \<lparr>ins_data = [1, 0, 0x50, 3, 7, 0, 0, 0], ins_pos = 8\<rparr>)"
  using Property_flags_by_version [where name = "[0x50]" and pre = "[]" and v = 5 and fmt = 2
      and t = 3 and fl = 2 and rest = "[7, 0, 0, 0]"]
    Property_flags_by_version [where name = "[0x50]" and pre = "[]" and v = 3 and fmt = 2
      and t = 3 and rest = "[7, 0, 0, 0]"]
  by (simp add: cp1252_undefined_def bytes2_def load_prop_data_def ins_unpack_def unpack_defs)

section \<open>Facts about loading aliases\<close>

lemma nat_int_add_numeral:
  "nat (int n + numeral k) = n + numeral k" "nat (numeral k + int n) = numeral k + n"
  by (simp_all add: nat_add_distrib)

lemma Alias_load_data_at:
  assumes "length ref = 8"
  shows "Alias_load_data vmad_version obj_format
        \<lparr>ins_data = pre @ ref @ [vlo, vhi, flo, fhi, clo, chi] @ rest, ins_pos = length pre\<rparr>
    = bindE (from_file (unpack_h [flo, fhi])
              \<lparr>ins_data = pre @ ref @ [vlo, vhi, flo, fhi, clo, chi] @ rest, ins_pos = length pre\<rparr>)
        (\<lambda>(r, ins1).
        bindE (load_n (Script_load_data (unpack_h [vlo, vhi]) (unpack_h [flo, fhi]))
                 (nat (unpack_H [clo, chi]))
                 \<lparr>ins_data = pre @ ref @ [vlo, vhi, flo, fhi, clo, chi] @ rest,
                  ins_pos = length pre + 14\<rparr>)
          (\<lambda>(children, ins2).
            Inr (\<lparr>alias_ref_obj = r, alias_vmad_version = unpack_h [vlo, vhi],
                  alias_obj_format = unpack_h [flo, fhi], script_count = unpack_H [clo, chi],
                  scripts = children\<rparr>, ins2)))"
  using assms
  by (simp add: Alias_load_data_def ins_seek_def ins_unpack_def Let_def from_file_def
      nat_int_add_numeral add.commute)


section \<open>C2: an alias is decoded under its own version and object format\<close>

text \<open>
  Claim C2. An alias starts with an 8-byte object reference followed by the alias's own
  version, object format and script count. Whatever VMAD version and object format the
  caller passes in, \<open>Alias_load_data\<close> decodes the object reference from the first 8
  bytes with the object format found behind them, and then loads as many scripts as the
  script count says, from the byte after the three fields, under the alias's own version
  and object format. The result does not depend on the caller's version and format.
\<close>

theorem Alias_load_data_own_format:
  "length ref = 8 \<longrightarrow>
   Alias_load_data vmad_version obj_format
        \<lparr>ins_data = pre @ ref @ [vlo, vhi, flo, fhi, clo, chi] @ rest, ins_pos = length pre\<rparr>
    = bindE (from_file (unpack_h [flo, fhi])
              \<lparr>ins_data = pre @ ref @ [vlo, vhi, flo, fhi, clo, chi] @ rest, ins_pos = length pre\<rparr>)
        (\<lambda>(r, ins1).
        bindE (load_n (Script_load_data (unpack_h [vlo, vhi]) (unpack_h [flo, fhi]))
                 (nat (unpack_H [clo, chi]))
                 \<lparr>ins_data = pre @ ref @ [vlo, vhi, flo, fhi, clo, chi] @ rest,
                  ins_pos = length pre + 14\<rparr>)
          (\<lambda>(children, ins2).
            Inr (\<lparr>alias_ref_obj = r, alias_vmad_version = unpack_h [vlo, vhi],
                  alias_obj_format = unpack_h [flo, fhi], script_count = unpack_H [clo, chi],
                  scripts = children\<rparr>, ins2)))
   \<and> Alias_load_data vmad_version obj_format
        \<lparr>ins_data = pre @ ref @ [vlo, vhi, flo, fhi, clo, chi] @ rest, ins_pos = length pre\<rparr>
     = Alias_load_data other_version other_format
        \<lparr>ins_data = pre @ ref @ [vlo, vhi, flo, fhi, clo, chi] @ rest, ins_pos = length pre\<rparr>"
proof (intro impI)
  assume l: "length ref = 8"
  show "Alias_load_data vmad_version obj_format
        \<lparr>ins_data = pre @ ref @ [vlo, vhi, flo, fhi, clo, chi] @ rest, ins_pos = length pre\<rparr>
    = bindE (from_file (unpack_h [flo, fhi])
              \<lparr>ins_data = pre @ ref @ [vlo, vhi, flo, fhi, clo, chi] @ rest, ins_pos = length pre\<rparr>)
        (\<lambda>(r, ins1).
        bindE (load_n (Script_load_data (unpack_h [vlo, vhi]) (unpack_h [flo, fhi]))
                 (nat (unpack_H [clo, chi]))
                 \<lparr>ins_data = pre @ ref @ [vlo, vhi, flo, fhi, clo, chi] @ rest,
                  ins_pos = length pre + 14\<rparr>)
          (\<lambda>(children, ins2).
            Inr (\<lparr>alias_ref_obj = r, alias_vmad_version = unpack_h [vlo, vhi],
                  alias_obj_format = unpack_h [flo, fhi], script_count = unpack_H [clo, chi],
                  scripts = children\<rparr>, ins2)))
   \<and> Alias_load_data vmad_version obj_format
        \<lparr>ins_data = pre @ ref @ [vlo, vhi, flo, fhi, clo, chi] @ rest, ins_pos = length pre\<rparr>
     = Alias_load_data other_version other_format
        \<lparr>ins_data = pre @ ref @ [vlo, vhi, flo, fhi, clo, chi] @ rest, ins_pos = length pre\<rparr>"
    unfolding Alias_load_data_at [OF l] by simp
qed

theorem Alias_load_data_own_format_witness:
  "Alias_load_data 5 2
     \<lparr>ins_data = [0x14, 0, 0, 0, 0xFF, 0xFF, 0, 0, 3, 0, 1, 0, 1, 0,
                  1, 0, 0x53, 0, 1, 0,
                  1, 0, 0x50, 1, 0x15, 0, 0, 0, 0xFE, 0xFF, 0, 0], ins_pos = 0\<rparr>
   = Inr (\<lparr>alias_ref_obj = \<lparr>aid = -1, fid = 20\<rparr>, alias_vmad_version = 3,
           alias_obj_format = 1, script_count = 1,
           scripts = [\<lparr>script_name = [0x53], script_flags = 0, property_count = 1,
                       properties = [\<lparr>prop_name = [0x50], prop_type = 1, prop_flags = 1,
                                      prop_data = PObject \<lparr>aid = -2, fid = 21\<rparr>\<rparr>]\<rparr>]\<rparr>,
          \<lparr>ins_data = [0x14, 0, 0, 0, 0xFF, 0xFF, 0, 0, 3, 0, 1, 0, 1, 0,
                  1, 0, 0x53, 0, 1, 0,
                  1, 0, 0x50, 1, 0x15, 0, 0, 0, 0xFE, 0xFF, 0, 0], ins_pos = 32\<rparr>)
   \<and> from_file 2
     \<lparr>ins_data = [0x14, 0, 0, 0, 0xFF, 0xFF, 0, 0, 3, 0, 1, 0, 1, 0,
                  1, 0, 0x53, 0, 1, 0,
                  1, 0, 0x50, 1, 0x15, 0, 0, 0, 0xFE, 0xFF, 0, 0], ins_pos = 0\<rparr>
   = Inr (\<lparr>aid = 0, fid = 65535\<rparr>,
          \<lparr>ins_data = [0x14, 0, 0, 0, 0xFF, 0xFF, 0, 0, 3, 0, 1, 0, 1, 0,
                  1, 0, 0x53, 0, 1, 0,
                  1, 0, 0x50, 1, 0x15, 0, 0, 0, 0xFE, 0xFF, 0, 0], ins_pos = 8\<rparr>)"
  using Alias_load_data_own_format [where pre = "[]" and ref = "[0x14, 0, 0, 0, 0xFF, 0xFF, 0, 0]"
      and vlo = 3 and vhi = 0 and flo = 1 and fhi = 0 and clo = 1 and chi = 0
      and rest = "[1, 0, 0x53, 0, 1, 0, 1, 0, 0x50, 1, 0x15, 0, 0, 0, 0xFE, 0xFF, 0, 0]"
      and vmad_version = 5 and obj_format = 2 and other_version = 5 and other_format = 2]
  by (simp add: Script_load_data_def eval_defs)

section \<open>Facts about the mapping pass\<close>

lemma bindE_Inr_iff:
  "bindE m f = Inr y \<longleftrightarrow> (\<exists>x. m = Inr x \<and> f x = Inr y)"
  by (cases m) auto

lemma map_each_all2:
  assumes "map_each mp xs = Inr (xs', cs)"
    and "\<And>x x' c. x \<in> set xs \<Longrightarrow> mp x = Inr (x', c) \<Longrightarrow> c = cf x \<and> R x x'"
  shows "cs = concat (map cf xs) \<and> list_all2 R xs xs'"
  using assms
proof (induction xs arbitrary: xs' cs)
  case Nil
  then show ?case by simp
next
  case (Cons x xs)
  from Cons.prems(1) obtain x' c ys cs' where
    h: "mp x = Inr (x', c)" and t: "map_each mp xs = Inr (ys, cs')"
    and e: "xs' = x' # ys" "cs = c @ cs'"
    by (auto simp: bindE_Inr_iff)
  from Cons.prems(2) [OF _ h] have "c = cf x \<and> R x x'" by simp
  moreover from Cons.IH [OF t] Cons.prems(2) have "cs' = concat (map cf xs) \<and> list_all2 R xs ys"
    by simp
  ultimately show ?case using e by simp
qed

lemma ObjectRef_map_fids_facts:
  "ObjectRef_map_fids f save r = (r', c) \<Longrightarrow>
   c = [fid r] \<and> blank_ref r' = blank_ref r \<and> fid r' = (if save then f (fid r) else fid r)
   \<and> (\<not> save \<longrightarrow> r' = r)"
  by (auto simp: ObjectRef_map_fids_def blank_ref_def Let_def)

lemma ref_list_facts:
  assumes "list_all2 (\<lambda>r r'. blank_ref r' = blank_ref r
      \<and> fid r' = (if save then f (fid r) else fid r) \<and> (\<not> save \<longrightarrow> r' = r)) rs rs'"
  shows "map blank_ref rs' = map blank_ref rs \<and> remapped f save rs rs' \<and> (\<not> save \<longrightarrow> rs' = rs)"
  using assms by (induction rule: list_all2_induct) (auto simp: remapped_def)

lemma Property_map_fids_facts:
  assumes "Property_map_fids f save p = Inr (p', calls)"
  shows "calls = map fid (property_refs p) \<and> blank_property p' = blank_property p
    \<and> remapped f save (property_refs p) (property_refs p') \<and> (\<not> save \<longrightarrow> p' = p)"
proof (cases "prop_type p = 1")
  case True
  with assms obtain r where d: "prop_data p = PObject r"
    by (auto simp: Property_map_fids_def split: prop_value.splits)
  obtain r' c where m: "ObjectRef_map_fids f save r = (r', c)" by (cases "ObjectRef_map_fids f save r")
  from assms True d m have e: "p' = p\<lparr>prop_data := PObject r'\<rparr>" "calls = c"
    by (auto simp: Property_map_fids_def)
  from ObjectRef_map_fids_facts [OF m] True d e show ?thesis
    by (auto simp: property_refs_def blank_property_def remapped_def)
next
  case False
  show ?thesis
  proof (cases "prop_type p = 11")
    case True
    with assms False obtain rs where d: "prop_data p = PObjectArray rs"
      by (auto simp: Property_map_fids_def split: prop_value.splits)
    from assms False True d obtain rs' where
      m: "map_each (\<lambda>r. Inr (ObjectRef_map_fids f save r)) rs = Inr (rs', calls)"
      and e: "p' = p\<lparr>prop_data := PObjectArray rs'\<rparr>"
      by (auto simp: Property_map_fids_def bindE_Inr_iff)
    have "calls = concat (map (\<lambda>r. [fid r]) rs)
        \<and> list_all2 (\<lambda>r r'. blank_ref r' = blank_ref r
              \<and> fid r' = (if save then f (fid r) else fid r) \<and> (\<not> save \<longrightarrow> r' = r)) rs rs'"
      by (rule map_each_all2 [OF m]) (use ObjectRef_map_fids_facts in auto)
    then have c: "calls = map fid rs" and l: "list_all2 (\<lambda>r r'. blank_ref r' = blank_ref r
              \<and> fid r' = (if save then f (fid r) else fid r) \<and> (\<not> save \<longrightarrow> r' = r)) rs rs'"
      by simp_all
    from ref_list_facts [OF l] c False True d e show ?thesis
      by (auto simp: property_refs_def blank_property_def)
  next
    case F2: False
    with assms False have "p' = p" "calls = []" by (auto simp: Property_map_fids_def)
    with False F2 show ?thesis by (simp add: property_refs_def remapped_def)
  qed
qed


lemma walked_list:
  assumes "list_all2 (\<lambda>x x'. bl x' = bl x \<and> remapped f save (rf x) (rf x')
      \<and> (\<not> save \<longrightarrow> x' = x)) xs xs'"
  shows "map bl xs' = map bl xs \<and> remapped f save (concat (map rf xs)) (concat (map rf xs'))
    \<and> (\<not> save \<longrightarrow> xs' = xs)"
  using assms by (induction rule: list_all2_induct) (auto simp: remapped_def)

lemma Script_map_fids_facts:
  assumes "Script_map_fids f save s = Inr (s', calls)"
  shows "calls = map fid (script_refs s) \<and> blank_script s' = blank_script s
    \<and> remapped f save (script_refs s) (script_refs s') \<and> (\<not> save \<longrightarrow> s' = s)"
proof -
  from assms obtain ps where
    m: "map_each (Property_map_fids f save) (properties s) = Inr (ps, calls)"
    and e: "s' = s\<lparr>properties := ps\<rparr>"
    by (auto simp: Script_map_fids_def bindE_Inr_iff)
  have "calls = concat (map (\<lambda>p. map fid (property_refs p)) (properties s))
      \<and> list_all2 (\<lambda>p p'. blank_property p' = blank_property p
            \<and> remapped f save (property_refs p) (property_refs p') \<and> (\<not> save \<longrightarrow> p' = p))
          (properties s) ps"
    by (rule map_each_all2 [OF m]) (use Property_map_fids_facts in blast)
  then have c: "calls = map fid (script_refs s)"
    and l: "list_all2 (\<lambda>p p'. blank_property p' = blank_property p
            \<and> remapped f save (property_refs p) (property_refs p') \<and> (\<not> save \<longrightarrow> p' = p))
          (properties s) ps"
    by (simp_all add: script_refs_def map_concat comp_def)
  from walked_list [OF l] c e show ?thesis
    by (auto simp: script_refs_def blank_script_def)
qed

lemma Alias_map_fids_facts:
  assumes "Alias_map_fids f save a = Inr (a', calls)"
  shows "calls = map fid (alias_refs a) \<and> blank_alias a' = blank_alias a
    \<and> remapped f save (alias_refs a) (alias_refs a') \<and> (\<not> save \<longrightarrow> a' = a)"
proof -
  obtain r' c where r: "ObjectRef_map_fids f save (alias_ref_obj a) = (r', c)"
    by (cases "ObjectRef_map_fids f save (alias_ref_obj a)")
  from assms r obtain ss c1 where
    m: "map_each (Script_map_fids f save) (scripts a) = Inr (ss, c1)"
    and e: "a' = a\<lparr>alias_ref_obj := r', scripts := ss\<rparr>" "calls = c @ c1"
    by (auto simp: Alias_map_fids_def bindE_Inr_iff)
  have "c1 = concat (map (\<lambda>s. map fid (script_refs s)) (scripts a))
      \<and> list_all2 (\<lambda>s s'. blank_script s' = blank_script s
            \<and> remapped f save (script_refs s) (script_refs s') \<and> (\<not> save \<longrightarrow> s' = s))
          (scripts a) ss"
    by (rule map_each_all2 [OF m]) (use Script_map_fids_facts in blast)
  then have c1: "c1 = map fid (concat (map script_refs (scripts a)))"
    and l: "list_all2 (\<lambda>s s'. blank_script s' = blank_script s
            \<and> remapped f save (script_refs s) (script_refs s') \<and> (\<not> save \<longrightarrow> s' = s))
          (scripts a) ss"
    by (simp_all add: map_concat comp_def)
  from walked_list [OF l] ObjectRef_map_fids_facts [OF r] c1 e show ?thesis
    by (auto simp: alias_refs_def blank_alias_def remapped_def)
qed

lemma VmadHandlerQUST_map_fids_facts:
  assumes "VmadHandlerQUST_map_fids f save q = Inr (q', calls)"
  shows "calls = map fid (special_refs (Handler (SpecialQUST q)))
    \<and> blank_special (Handler (SpecialQUST q')) = blank_special (Handler (SpecialQUST q))
    \<and> remapped f save (special_refs (Handler (SpecialQUST q)))
         (special_refs (Handler (SpecialQUST q')))
    \<and> (\<not> save \<longrightarrow> q' = q)"
proof -
  from assms obtain als where
    m: "map_each (Alias_map_fids f save) (aliases q) = Inr (als, calls)"
    and e: "q' = q\<lparr>aliases := als\<rparr>"
    by (auto simp: VmadHandlerQUST_map_fids_def bindE_Inr_iff)
  have "calls = concat (map (\<lambda>a. map fid (alias_refs a)) (aliases q))
      \<and> list_all2 (\<lambda>a a'. blank_alias a' = blank_alias a
            \<and> remapped f save (alias_refs a) (alias_refs a') \<and> (\<not> save \<longrightarrow> a' = a))
          (aliases q) als"
    by (rule map_each_all2 [OF m]) (use Alias_map_fids_facts in blast)
  then have c: "calls = map fid (concat (map alias_refs (aliases q)))"
    and l: "list_all2 (\<lambda>a a'. blank_alias a' = blank_alias a
            \<and> remapped f save (alias_refs a) (alias_refs a') \<and> (\<not> save \<longrightarrow> a' = a))
          (aliases q) als"
    by (simp_all add: map_concat comp_def)
  from walked_list [OF l] c e show ?thesis
    by (auto simp: special_refs_def blank_special_def)
qed

lemma handler_map_fids_facts:
  assumes "handler_map_fids sg f save sd = Inr (sd', calls)" and "special_sig sd = sg"
  shows "calls = map fid (special_refs (Handler sd))
    \<and> blank_special (Handler sd') = blank_special (Handler sd)
    \<and> remapped f save (special_refs (Handler sd)) (special_refs (Handler sd'))
    \<and> (\<not> save \<longrightarrow> sd' = sd)"
proof (cases "sg = ''QUST''")
  case True
  with assms obtain q where q: "sd = SpecialQUST q"
    by (cases sd) (auto simp: special_sig_def)
  from assms True q obtain q' where
    m: "VmadHandlerQUST_map_fids f save q = Inr (q', calls)" and e: "sd' = SpecialQUST q'"
    by (auto simp: handler_map_fids_def bindE_Inr_iff)
  from VmadHandlerQUST_map_fids_facts [OF m] q e show ?thesis by simp
next
  case False
  with assms have e: "sd' = sd" "calls = []"
    by (auto simp: handler_map_fids_def split: if_splits)
  from False assms(2) have "special_refs (Handler sd) = []"
    by (cases sd) (auto simp: special_refs_def special_sig_def)
  with e show ?thesis by (simp add: remapped_def)
qed


lemma special_sig_in_handler_map: "special_sig sd \<in> set handler_map"
  by (cases sd) (simp_all add: special_sig_def handler_map_def)

lemma mapFids_facts:
  assumes fit: "special_fits owner" and m: "mapFids f save owner = Inr (owner', calls)"
  shows "calls = map fid (tree_refs owner) \<and> blank_tree owner' = blank_tree owner
    \<and> remapped f save (tree_refs owner) (tree_refs owner') \<and> (\<not> save \<longrightarrow> owner' = owner)"
proof (cases "vmdata owner")
  case None
  with m show ?thesis by (simp add: mapFids_def tree_refs_def remapped_def)
next
  case (Some vmad)
  with m obtain ss where ss: "scripts_vmad vmad = Some ss"
    by (cases "scripts_vmad vmad") (auto simp: mapFids_def)
  from m Some ss obtain ss' c0 where
    me: "map_each (Script_map_fids f save) ss = Inr (ss', c0)"
    by (cases "map_each (Script_map_fids f save) ss") (auto simp: mapFids_def)
  have "c0 = concat (map (\<lambda>s. map fid (script_refs s)) ss)
      \<and> list_all2 (\<lambda>s s'. blank_script s' = blank_script s
            \<and> remapped f save (script_refs s) (script_refs s') \<and> (\<not> save \<longrightarrow> s' = s)) ss ss'"
    by (rule map_each_all2 [OF me]) (use Script_map_fids_facts in blast)
  then have c0: "c0 = map fid (concat (map script_refs ss))"
    and l: "list_all2 (\<lambda>s s'. blank_script s' = blank_script s
            \<and> remapped f save (script_refs s) (script_refs s') \<and> (\<not> save \<longrightarrow> s' = s)) ss ss'"
    by (simp_all add: map_concat comp_def)
  note w = walked_list [OF l]
  have vm: "vmad = \<lparr>scripts_vmad = Some ss, special_data = special_data vmad\<rparr>"
    using ss by (cases vmad) simp
  show ?thesis
  proof (cases "special_data vmad")
    case Unset
    with m Some ss me show ?thesis by (simp add: mapFids_def)
  next
    case SpecialNone
    with m Some ss me have e: "owner' = owner\<lparr>vmdata := Some (vmad\<lparr>scripts_vmad := Some ss'\<rparr>)\<rparr>"
      "calls = c0"
      by (simp_all add: mapFids_def)
    from w c0 e Some ss SpecialNone vm show ?thesis
      by (cases owner; cases vmad)
        (auto simp: tree_refs_def blank_tree_def special_refs_def blank_special_def remapped_def)
  next
    case Partial
    with m Some ss me have e: "owner' = owner\<lparr>vmdata := Some (vmad\<lparr>scripts_vmad := Some ss'\<rparr>)\<rparr>"
      "calls = c0"
      by (auto simp add: mapFids_def split: if_splits)
    from w c0 e Some ss Partial vm show ?thesis
      by (cases owner; cases vmad)
        (auto simp: tree_refs_def blank_tree_def special_refs_def blank_special_def remapped_def)
  next
    case (Handler sd)
    with fit Some have sg: "special_sig sd = recType owner" by (simp add: special_fits_def)
    then have inm: "recType owner \<in> set handler_map"
      using special_sig_in_handler_map [of sd] by simp
    from m Some ss me Handler inm obtain sd' c1 where
      h: "handler_map_fids (recType owner) f save sd = Inr (sd', c1)"
      and e: "owner' = owner\<lparr>vmdata := Some (vmad\<lparr>scripts_vmad := Some ss',
                special_data := Handler sd'\<rparr>)\<rparr>" "calls = c0 @ c1"
      by (auto simp: mapFids_def bindE_Inr_iff)
    note hf = handler_map_fids_facts [OF h sg]
    from w hf c0 e Some ss Handler vm show ?thesis
      by (cases owner; cases vmad) (auto simp: tree_refs_def blank_tree_def remapped_def)
  qed
qed

lemmas sample_defs = sample_record_def sample_script_def sample_alias_def
lemmas map_fids_defs = mapFids_def handler_map_fids_def VmadHandlerQUST_map_fids_def
  Alias_map_fids_def Script_map_fids_def Property_map_fids_def ObjectRef_map_fids_def
  handler_map_def special_sig_def
lemmas refs_defs = tree_refs_def special_refs_def alias_refs_def script_refs_def
  property_refs_def

section \<open>Facts about fitting trees\<close>

lemma tree_fits_special_fits: "tree_fits owner \<Longrightarrow> special_fits owner"
  by (auto simp: tree_fits_def special_fits_def handler_fits_def
      split: option.splits special_attr.splits)

lemma map_each_total:
  "(\<And>x. x \<in> set xs \<Longrightarrow> \<exists>x' c. mp x = Inr (x', c)) \<Longrightarrow> \<exists>ys cs. map_each mp xs = Inr (ys, cs)"
proof (induction xs)
  case Nil
  then show ?case by simp
next
  case (Cons x xs)
  from Cons.prems [of x] obtain x' c where h: "mp x = Inr (x', c)" by auto
  have "\<And>y. y \<in> set xs \<Longrightarrow> \<exists>x' c. mp y = Inr (x', c)" using Cons.prems by simp
  from Cons.IH [OF this] obtain ys cs where t: "map_each mp xs = Inr (ys, cs)" by blast
  from h t show ?case by simp
qed

lemma Property_map_fids_total:
  "payload_fits p \<Longrightarrow> \<exists>x c. Property_map_fids f save p = Inr (x, c)"
proof -
  assume a: "payload_fits p"
  have r: "\<And>rs. \<exists>ys cs. map_each (\<lambda>r. Inr (ObjectRef_map_fids f save r)) rs = Inr (ys, cs)"
    by (rule map_each_total) (simp add: ObjectRef_map_fids_def Let_def)
  show ?thesis
  proof (cases "prop_type p = 1")
    case True
    with a show ?thesis
      by (auto simp: payload_fits_def Property_map_fids_def split: prop_value.splits prod.splits)
  next
    case False
    show ?thesis
    proof (cases "prop_type p = 11")
      case True
      with a False obtain rs where d: "prop_data p = PObjectArray rs"
        by (auto simp: payload_fits_def split: prop_value.splits)
      from r [of rs] obtain rs' c where
        "map_each (\<lambda>r. Inr (ObjectRef_map_fids f save r)) rs = Inr (rs', c)"
        by blast
      with True False d show ?thesis by (simp add: Property_map_fids_def)
    next
      case F: False
      with False show ?thesis by (simp add: Property_map_fids_def)
    qed
  qed
qed

lemma Script_map_fids_total:
  "script_fits s \<Longrightarrow> \<exists>x c. Script_map_fids f save s = Inr (x, c)"
proof -
  assume "script_fits s"
  then have "\<And>p. p \<in> set (properties s) \<Longrightarrow> \<exists>x c. Property_map_fids f save p = Inr (x, c)"
    using Property_map_fids_total by (simp add: script_fits_def list_all_iff)
  from map_each_total [of "properties s" "Property_map_fids f save", OF this]
  obtain ps c where "map_each (Property_map_fids f save) (properties s) = Inr (ps, c)"
    by blast
  then show ?thesis by (simp add: Script_map_fids_def)
qed

lemma Alias_map_fids_total:
  "alias_fits a \<Longrightarrow> \<exists>x c. Alias_map_fids f save a = Inr (x, c)"
proof -
  assume "alias_fits a"
  then have "\<And>s. s \<in> set (scripts a) \<Longrightarrow> \<exists>x c. Script_map_fids f save s = Inr (x, c)"
    using Script_map_fids_total by (simp add: alias_fits_def list_all_iff)
  from map_each_total [of "scripts a" "Script_map_fids f save", OF this]
  obtain ss c where "map_each (Script_map_fids f save) (scripts a) = Inr (ss, c)"
    by blast
  then show ?thesis by (simp add: Alias_map_fids_def split: prod.splits)
qed

lemma handler_map_fids_total:
  assumes "handler_fits sg sd"
  shows "\<exists>x c. handler_map_fids sg f save sd = Inr (x, c)"
proof (cases sd)
  case (SpecialQUST q)
  with assms have sg: "sg = ''QUST''" and al: "list_all alias_fits (aliases q)"
    by (simp_all add: handler_fits_def special_sig_def)
  from al have "\<And>a. a \<in> set (aliases q) \<Longrightarrow> \<exists>x c. Alias_map_fids f save a = Inr (x, c)"
    using Alias_map_fids_total by (simp add: list_all_iff)
  from map_each_total [of "aliases q" "Alias_map_fids f save", OF this]
  obtain als c where "map_each (Alias_map_fids f save) (aliases q) = Inr (als, c)"
    by blast
  with sg SpecialQUST show ?thesis
    by (simp add: handler_map_fids_def VmadHandlerQUST_map_fids_def)
qed (use assms in \<open>auto simp: handler_fits_def special_sig_def handler_map_fids_def
      handler_map_def\<close>)

lemma mapFids_total:
  assumes "tree_fits owner"
  shows "\<exists>x c. mapFids f save owner = Inr (x, c)"
proof (cases "vmdata owner")
  case None
  then show ?thesis by (simp add: mapFids_def)
next
  case (Some vmad)
  with assms obtain ss where ss: "scripts_vmad vmad = Some ss" and fs: "list_all script_fits ss"
    by (auto simp: tree_fits_def split: option.splits)
  from fs have "\<And>s. s \<in> set ss \<Longrightarrow> \<exists>x c. Script_map_fids f save s = Inr (x, c)"
    using Script_map_fids_total by (simp add: list_all_iff)
  from map_each_total [of ss "Script_map_fids f save", OF this]
  obtain ss' c where m: "map_each (Script_map_fids f save) ss = Inr (ss', c)" by blast
  show ?thesis
  proof (cases "special_data vmad")
    case (Handler sd)
    with assms Some have hf: "handler_fits (recType owner) sd"
      by (auto simp: tree_fits_def split: option.splits)
    then have "recType owner \<in> set handler_map"
      using special_sig_in_handler_map [of sd] by (simp add: handler_fits_def)
    moreover from handler_map_fids_total [OF hf, of f save] obtain sd' c1 where
      "handler_map_fids (recType owner) f save sd = Inr (sd', c1)" by blast
    ultimately show ?thesis using Some ss m Handler by (simp add: mapFids_def)
  qed (use assms Some ss m in \<open>auto simp: mapFids_def tree_fits_def\<close>)
qed


lemma load_n_all:
  "(\<And>i x j. ld i = Inr (x, j) \<Longrightarrow> P x) \<Longrightarrow> load_n ld n ins = Inr (xs, ins')
   \<Longrightarrow> list_all P xs"
proof (induction n arbitrary: ins xs ins')
  case 0
  then show ?case by simp
next
  case (Suc n)
  from Suc.prems(2) obtain x i1 ys where
    h: "ld ins = Inr (x, i1)" and t: "load_n ld n i1 = Inr (ys, ins')" and e: "xs = x # ys"
    by (auto simp: bindE_Inr_iff)
  from Suc.prems(1) [OF h] Suc.IH [OF Suc.prems(1) t] e show ?case by simp
qed

lemma Property_load_data_fits:
  "Property_load_data v fmt ins = Inr (p, ins') \<Longrightarrow> payload_fits p"
  by (auto simp: Property_load_data_def load_prop_data_def payload_fits_def bindE_Inr_iff
      split: if_splits)

lemma Script_load_data_fits:
  assumes "Script_load_data v fmt ins = Inr (s, ins')"
  shows "script_fits s"
proof -
  from assms obtain k i j where
    l: "load_n (Property_load_data v fmt) k i = Inr (properties s, j)"
    by (auto simp: Script_load_data_def bindE_Inr_iff)
  from load_n_all [OF _ l, of payload_fits] Property_load_data_fits show ?thesis
    unfolding script_fits_def by blast
qed

lemma Alias_load_data_fits:
  assumes "Alias_load_data v fmt ins = Inr (a, ins')"
  shows "alias_fits a"
proof -
  from assms obtain v1 f1 k i j where
    l: "load_n (Script_load_data v1 f1) k i = Inr (scripts a, j)"
    by (auto simp: Alias_load_data_def bindE_Inr_iff Let_def)
  from load_n_all [OF _ l, of script_fits] Script_load_data_fits show ?thesis
    unfolding alias_fits_def by blast
qed

lemma VmadHandlerQUST_load_data_fits:
  assumes "VmadHandlerQUST_load_data v fmt ins = Inr (q, ins')"
  shows "list_all alias_fits (aliases q)"
proof -
  from assms obtain k i j where
    l: "load_n (Alias_load_data v fmt) k i = Inr (aliases q, j)"
    by (auto simp: VmadHandlerQUST_load_data_def bindE_Inr_iff)
  from load_n_all [OF _ l, of alias_fits] Alias_load_data_fits show ?thesis by blast
qed

lemma handler_load_data_fits:
  assumes "handler_load_data sg v fmt ins = Inr (sd, ins')"
  shows "handler_fits sg sd"
  using assms VmadHandlerQUST_load_data_fits
  by (auto simp: handler_load_data_def handler_fits_def special_sig_def bindE_Inr_iff
      split: if_splits)

lemma load_scripts_fits:
  "load_scripts v fmt n ins acc = (ss, Inr ins') \<Longrightarrow> list_all script_fits acc
   \<Longrightarrow> list_all script_fits ss"
proof (induction n arbitrary: ins acc)
  case 0
  then show ?case by simp
next
  case (Suc n)
  from Suc.prems(1) obtain s i1 where
    h: "Script_load_data v fmt ins = Inr (s, i1)"
    and t: "load_scripts v fmt n i1 (acc @ [s]) = (ss, Inr ins')"
    by (auto split: sum.splits)
  from Script_load_data_fits [OF h] Suc.prems(2) have "list_all script_fits (acc @ [s])"
    by simp
  from Suc.IH [OF t this] show ?case .
qed

lemma loadData_fits:
  assumes "loadData owner ins sz = (owner', Inr ins')"
  shows "tree_fits owner'"
proof -
  from assms obtain hdr i1 where u: "ins_unpack 6 ins = Inr (hdr, i1)"
    by (cases "ins_unpack 6 ins") (auto simp: loadData_def Let_def)
  let ?v = "unpack_h (take 2 hdr)" and ?f = "unpack_h (take 2 (drop 2 hdr))"
  obtain ss res where l: "load_scripts ?v ?f (nat (unpack_H (drop 4 hdr))) i1 [] = (ss, res)"
    by (cases "load_scripts ?v ?f (nat (unpack_H (drop 4 hdr))) i1 []")
  from assms u l obtain i2 where r: "res = Inr i2"
    by (cases res) (auto simp: loadData_def Let_def split: if_splits)
  from load_scripts_fits [OF l [unfolded r]] have fs: "list_all script_fits ss" by simp
  from assms u l r fs handler_load_data_fits show ?thesis
    by (auto simp: loadData_def Let_def tree_fits_def split: if_splits sum.splits)
qed

section \<open>C9: the mapping pass visits the reference-bearing leaves, and only them\<close>

text \<open>
  Claim C9. For a tree whose special data fits its owning record, a successful
  \<open>mapFids\<close> calls the mapping function on the FormIDs of the reference-bearing leaves
  (type-1 properties, the elements of type-11 properties, the embedded reference of each
  alias and the leaves of the alias's scripts), once each and in traversal order, so the
  number of calls is the number of such leaves. A property of any other type is returned
  as it is with no call made. In save mode the tree differs from the original in the
  FormIDs of those leaves only, which are the mapped values; in query mode the tree is
  unchanged. The pass succeeds on every tree that fits, and every tree that a successful
  \<open>loadData\<close> leaves on the owning record fits.
\<close>

theorem mapFids_visits_reference_leaves:
  "(special_fits owner \<and> mapFids f save owner = Inr (owner', calls) \<longrightarrow>
      calls = map fid (tree_refs owner)
      \<and> blank_tree owner' = blank_tree owner
      \<and> (save \<longrightarrow> map fid (tree_refs owner') = map f (map fid (tree_refs owner)))
      \<and> (\<not> save \<longrightarrow> owner' = owner))
   \<and> (prop_type p \<noteq> 1 \<and> prop_type p \<noteq> 11 \<longrightarrow> Property_map_fids f save p = Inr (p, []))
   \<and> (tree_fits owner \<longrightarrow>
        special_fits owner \<and> (\<exists>x c. mapFids f save owner = Inr (x, c)))
   \<and> (loadData loaded ins sz = (owner, Inr ins') \<longrightarrow> tree_fits owner)"
proof (intro conjI impI)
  assume a: "special_fits owner \<and> mapFids f save owner = Inr (owner', calls)"
  note mf = mapFids_facts [OF conjunct1 [OF a] conjunct2 [OF a]]
  from mf show "calls = map fid (tree_refs owner)" by simp
  from mf show "blank_tree owner' = blank_tree owner" by simp
  from mf show "map fid (tree_refs owner') = map f (map fid (tree_refs owner))" if save
    using that by (simp add: remapped_def)
  from mf show "owner' = owner" if "\<not> save" using that by simp
next
  assume "prop_type p \<noteq> 1 \<and> prop_type p \<noteq> 11"
  then show "Property_map_fids f save p = Inr (p, [])" by (simp add: Property_map_fids_def)
next
  assume t: "tree_fits owner"
  then show "special_fits owner" by (rule tree_fits_special_fits)
  from t show "\<exists>x c. mapFids f save owner = Inr (x, c)" by (rule mapFids_total)
next
  assume "loadData loaded ins sz = (owner, Inr ins')"
  then show "tree_fits owner" by (rule loadData_fits)
qed

theorem mapFids_visits_reference_leaves_witness:
  "tree_fits sample_record \<and> special_fits sample_record
   \<and> map fid (tree_refs sample_record) = [20, 21, 22, 23]
   \<and> snd (projr (mapFids (\<lambda>x. x + 1000) True sample_record)) = [20, 21, 22, 23]
   \<and> map fid (tree_refs (fst (projr (mapFids (\<lambda>x. x + 1000) True sample_record))))
       = [1020, 1021, 1022, 1023]
   \<and> blank_tree (fst (projr (mapFids (\<lambda>x. x + 1000) True sample_record)))
       = blank_tree sample_record
   \<and> mapFids (\<lambda>x. x + 1000) False sample_record = Inr (sample_record, [20, 21, 22, 23])"
proof -
  have f: "special_fits sample_record"
    by (simp add: special_fits_def sample_defs special_sig_def)
  have r: "map fid (tree_refs sample_record) = [20, 21, 22, 23]"
    by (simp add: refs_defs sample_defs)
  obtain o1 c1 where m1: "mapFids (\<lambda>x. x + 1000) True sample_record = Inr (o1, c1)"
    by (simp add: map_fids_defs sample_defs Let_def)
  obtain o2 c2 where m2: "mapFids (\<lambda>x. x + 1000) False sample_record = Inr (o2, c2)"
    by (simp add: map_fids_defs sample_defs Let_def)
  note t1 = mapFids_visits_reference_leaves [where owner = sample_record and save = True
      and f = "\<lambda>x. x + 1000" and owner' = o1 and calls = c1, THEN conjunct1, rule_format,
      OF conjI [OF f m1]]
  note t2 = mapFids_visits_reference_leaves [where owner = sample_record and save = False
      and f = "\<lambda>x. x + 1000" and owner' = o2 and calls = c2, THEN conjunct1, rule_format,
      OF conjI [OF f m2]]
  have tf: "tree_fits sample_record"
    by (simp add: tree_fits_def handler_fits_def alias_fits_def script_fits_def
        payload_fits_def sample_defs special_sig_def)
  from t1 t2 f r m1 m2 tf show ?thesis by simp
qed

section \<open>Facts about dumping\<close>

lemma is_flag_set_bit: "i < 8 \<Longrightarrow> is_flag_set fl i = bit fl i"
  unfolding is_flag_set_def flag_mask_def
  by (subst bit_eq_iff) (auto simp: bit_and_iff bit_push_bit_iff bit_1_iff bit_exp_iff)

lemma bit_set_flag:
  "i < 8 \<Longrightarrow> j < 8 \<Longrightarrow> bit (set_flag fl i v) j = (if j = i then v else bit fl j)"
  unfolding set_flag_def flag_mask_def
  by (auto simp: bit_or_iff bit_and_iff bit_not_iff bit_push_bit_iff bit_1_iff bit_exp_iff)

lemma is_flag_set_set_flag:
  "i < 8 \<Longrightarrow> j < 8 \<Longrightarrow> is_flag_set (set_flag fl i v) j = (if j = i then v else is_flag_set fl j)"
  by (simp add: is_flag_set_bit bit_set_flag)

lemma pack_B_byte: "pack_B (uint (b :: byte)) = Inr [b]"
proof -
  have "uint b < 256" using uint_bounded [of b] by simp
  then show ?thesis by (simp add: pack_B_def bytes1_def)
qed

lemma pack_h_5_2: "pack_h 5 = Inr [5, 0]" "pack_h 2 = Inr [2, 0]"
  by (simp_all add: pack_h_def bytes2_def)

lemma pack_H_Inr: "pack_H n = Inr bs \<Longrightarrow> bs = bytes2 n"
  by (auto simp: pack_H_def split: if_splits)

lemma pack_I_Inr: "pack_I n = Inr bs \<Longrightarrow> bs = bytes4 n"
  by (auto simp: pack_I_def split: if_splits)

lemma pack_b_Inr: "pack_b n = Inr bs \<Longrightarrow> bs = bytes1 n"
  by (auto simp: pack_b_def split: if_splits)

lemma Script_dump_data_Inr:
  assumes "Script_dump_data s = Inr (s', bs)"
  shows "s' = s\<lparr>property_count := int (length (properties s))\<rparr>
    \<and> (\<exists>n ps. dump_vmad_str16 (script_name s) = Inr n
          \<and> dump_each Property_dump_data (properties s) = Inr ps
          \<and> bs = n @ [script_flags s] @ bytes2 (int (length (properties s))) @ ps)"
  using assms
  by (auto simp: Script_dump_data_def Let_def bindE_Inr_iff pack_B_byte dest!: pack_H_Inr)

lemma Alias_dump_data_Inr:
  assumes "Alias_dump_data a = Inr (a', bs)"
  shows "\<exists>ref ss' sb. dump_out (alias_ref_obj a) = Inr ref \<and> length ref = 8
      \<and> dump_each_upd Script_dump_data (scripts a) = Inr (ss', sb)
      \<and> a' = a\<lparr>alias_vmad_version := 5, alias_obj_format := 2,
               script_count := int (length (scripts a)), scripts := ss'\<rparr>
      \<and> bs = ref @ [5, 0, 2, 0] @ bytes2 (int (length (scripts a))) @ sb"
proof -
  from assms obtain ref where r: "dump_out (alias_ref_obj a) = Inr ref"
    by (auto simp: Alias_dump_data_def bindE_Inr_iff)
  from dump_out_Inr [OF r] have l: "length ref = 8" by (simp add: length_bytes)
  from assms r l show ?thesis
    by (auto simp: Alias_dump_data_def Let_def bindE_Inr_iff pack_h_5_2 dest!: pack_H_Inr)
qed


lemma dump_each_upd_chunks:
  "dump_each_upd dmp xs = Inr (xs', bs) \<Longrightarrow>
   \<exists>cs. bs = concat cs \<and> length cs = length xs \<and> length xs' = length xs
     \<and> (\<forall>i<length xs. dmp (xs ! i) = Inr (xs' ! i, cs ! i))"
proof (induction xs arbitrary: xs' bs)
  case Nil
  then show ?case by simp
next
  case (Cons x xs)
  from Cons.prems obtain x' b ys bs' where
    h: "dmp x = Inr (x', b)" and t: "dump_each_upd dmp xs = Inr (ys, bs')"
    and e: "xs' = x' # ys" "bs = b @ bs'"
    by (auto simp: bindE_Inr_iff)
  from Cons.IH [OF t] obtain cs where
    c: "bs' = concat cs" "length cs = length xs" "length ys = length xs"
      "\<forall>i<length xs. dmp (xs ! i) = Inr (ys ! i, cs ! i)"
    by blast
  have "\<forall>i<length (x # xs). dmp ((x # xs) ! i) = Inr ((x' # ys) ! i, (b # cs) ! i)"
    using h c(4) by (auto simp: nth_Cons split: nat.splits)
  with c e show ?case
    by (intro exI [of _ "b # cs"]) simp
qed

lemma VmadHandlerQUST_dump_data_Inr:
  assumes "VmadHandlerQUST_dump_data q = Inr (q', bs)"
  shows "\<exists>n fs als ab. dump_vmad_str16 (file_name_qust q) = Inr n
      \<and> dump_each FragmentQUST_dump_data (fragments_qust q) = Inr fs
      \<and> dump_each_upd Alias_dump_data (aliases q) = Inr (als, ab)
      \<and> q' = q\<lparr>fragment_count_qust := int (length (fragments_qust q)), aliases := als\<rparr>
      \<and> bs = bytes1 (extra_bind_data_version_qust q)
               @ bytes2 (int (length (fragments_qust q))) @ n @ fs
               @ bytes2 (int (length (aliases q))) @ ab"
  using assms
  by (auto simp: VmadHandlerQUST_dump_data_def Let_def bindE_Inr_iff
      dest!: pack_H_Inr pack_b_Inr)

lemma VmadHandlerPERK_dump_data_Inr:
  assumes "VmadHandlerPERK_dump_data q = Inr (q', bs)"
  shows "\<exists>n fs. dump_vmad_str16 (file_name_perk q) = Inr n
      \<and> dump_each FragmentPERK_dump_data (fragments_perk q) = Inr fs
      \<and> q' = q\<lparr>fragment_count_perk := int (length (fragments_perk q))\<rparr>
      \<and> bs = bytes1 (extra_bind_data_version_perk q) @ n
               @ bytes2 (int (length (fragments_perk q))) @ fs"
  using assms
  by (auto simp: VmadHandlerPERK_dump_data_def Let_def bindE_Inr_iff
      dest!: pack_H_Inr pack_b_Inr)

lemma VmadHandlerINFO_dump_data_Inr:
  assumes "VmadHandlerINFO_dump_data r = Inr (r', bs)"
  shows "\<exists>n cs. dump_vmad_str16 (file_name_info r) = Inr n
      \<and> dump_each FragmentBasic_dump_data (present [begin_frag_info r, end_frag_info r]) = Inr cs
      \<and> r' = r\<lparr>fragment_flags_info :=
                 set_flag (set_flag (fragment_flags_info r) 0 (begin_frag_info r \<noteq> None)) 1
                   (end_frag_info r \<noteq> None)\<rparr>
      \<and> bs = bytes1 (extra_bind_data_version_info r) @ [fragment_flags_info r'] @ n @ cs"
  using assms
  by (auto simp: VmadHandlerINFO_dump_data_def Let_def bindE_Inr_iff pack_B_byte
      dest!: pack_b_Inr)

lemma VmadHandlerPACK_dump_data_Inr:
  assumes "VmadHandlerPACK_dump_data r = Inr (r', bs)"
  shows "\<exists>n cs. dump_vmad_str16 (file_name_pack r) = Inr n
      \<and> dump_each FragmentBasic_dump_data
           (present [begin_frag_pack r, end_frag_pack r, change_frag_pack r]) = Inr cs
      \<and> r' = r\<lparr>fragment_flags_pack :=
                 set_flag (set_flag (set_flag (fragment_flags_pack r) 0
                   (begin_frag_pack r \<noteq> None)) 1 (end_frag_pack r \<noteq> None)) 2
                   (change_frag_pack r \<noteq> None)\<rparr>
      \<and> bs = bytes1 (extra_bind_data_version_pack r) @ [fragment_flags_pack r'] @ n @ cs"
  using assms
  by (auto simp: VmadHandlerPACK_dump_data_def Let_def bindE_Inr_iff pack_B_byte
      dest!: pack_b_Inr)

lemma VmadHandlerSCEN_dump_data_Inr:
  assumes "VmadHandlerSCEN_dump_data r = Inr (r', bs)"
  shows "\<exists>n cs ps. dump_vmad_str16 (file_name_scen r) = Inr n
      \<and> dump_each FragmentBasic_dump_data (present [begin_frag_scen r, end_frag_scen r]) = Inr cs
      \<and> dump_each FragmentSCENPhase_dump_data (phase_fragments r) = Inr ps
      \<and> r' = r\<lparr>fragment_flags_scen :=
                 set_flag (set_flag (fragment_flags_scen r) 0 (begin_frag_scen r \<noteq> None)) 1
                   (end_frag_scen r \<noteq> None)\<rparr>
      \<and> bs = bytes1 (extra_bind_data_version_scen r) @ [fragment_flags_scen r'] @ n @ cs
               @ bytes2 (int (length (phase_fragments r))) @ ps"
  using assms
  by (auto simp: VmadHandlerSCEN_dump_data_def Let_def bindE_Inr_iff pack_B_byte
      dest!: pack_b_Inr pack_H_Inr)

lemma dumpData_Inr:
  assumes "dumpData owner = Inr (owner', Some out)"
  shows "\<exists>vmad ss ss' sb tl. vmdata owner = Some vmad \<and> scripts_vmad vmad = Some ss
      \<and> dump_each_upd Script_dump_data ss = Inr (ss', sb)
      \<and> out = [5, 0, 2, 0] @ bytes2 (int (length ss)) @ sb @ tl
      \<and> (tl = [] \<or> (\<exists>sd sd'. special_data vmad = Handler sd
                      \<and> recType owner \<in> set handler_map
                      \<and> handler_dump_data (recType owner) sd = Inr (sd', tl)))"
proof -
  from assms obtain vmad where v: "vmdata owner = Some vmad"
    by (cases "vmdata owner") (auto simp: dumpData_def)
  from assms v obtain ss where s: "scripts_vmad vmad = Some ss"
    by (cases "scripts_vmad vmad") (auto simp: dumpData_def pack_h_5_2)
  from assms v s obtain c ss' sb where
    c: "pack_H (int (length ss)) = Inr c"
    and d: "dump_each_upd Script_dump_data ss = Inr (ss', sb)"
    by (auto simp: dumpData_def pack_h_5_2 bindE_Inr_iff)
  from pack_H_Inr [OF c] have c2: "c = bytes2 (int (length ss))" .
  show ?thesis
  proof (cases "special_data vmad")
    case (Handler sd)
    with assms v s c d c2 show ?thesis
      by (auto simp: dumpData_def pack_h_5_2 bindE_Inr_iff Let_def split: if_splits)
  qed (use assms v s c d c2 in
      \<open>auto simp: dumpData_def pack_h_5_2 bindE_Inr_iff Let_def split: if_splits\<close>)
qed

lemma dump_array_Inr:
  "dump_array rs = Inr bs \<Longrightarrow>
   \<exists>body. dump_each dump_out rs = Inr body \<and> bs = bytes4 (int (length rs)) @ body"
  by (auto simp: dump_array_def bindE_Inr_iff dest!: pack_I_Inr)


lemmas dump_defs = dumpData_def handler_dump_data_def VmadHandlerQUST_dump_data_def
  VmadHandlerINFO_dump_data_def FragmentQUST_dump_data_def FragmentBasic_dump_data_def
  Alias_dump_data_def Script_dump_data_def handler_map_def set_flag_def flag_mask_def
  present_def List.map_filter_def

section \<open>C5: a dump writes VMAD version 5 and object format 2\<close>

text \<open>
  Claim C5. Whenever \<open>dumpData\<close> writes a payload, its first four bytes are version 5
  and object format 2. Whenever an alias is dumped, the four bytes behind its 8-byte
  object reference are version 5 and object format 2, and the alias holds 5 and 2
  afterwards, whatever version and format it held before. The dump of QUST special data
  ends with the dumps of all its aliases, one after the other, and the payload of a QUST
  record with QUST special data ends with the dump of that special data.
\<close>

theorem dump_writes_version_5_format_2:
  "(dumpData owner = Inr (owner', Some out) \<longrightarrow> take 4 out = [5, 0, 2, 0])
   \<and> (Alias_dump_data a = Inr (a', ab) \<longrightarrow>
        take 4 (drop 8 ab) = [5, 0, 2, 0] \<and> alias_vmad_version a' = 5 \<and> alias_obj_format a' = 2)
   \<and> (VmadHandlerQUST_dump_data q = Inr (q', qb) \<longrightarrow>
        (\<exists>hd cs. qb = hd @ concat cs \<and> length cs = length (aliases q)
           \<and> (\<forall>i<length (aliases q). take 4 (drop 8 (cs ! i)) = [5, 0, 2, 0]
                 \<and> (\<exists>x. Alias_dump_data (aliases q ! i) = Inr (x, cs ! i)))))
   \<and> (dumpData owner = Inr (owner', Some out) \<and> vmdata owner = Some vmad
        \<and> special_data vmad = Handler (SpecialQUST q) \<and> recType owner = ''QUST'' \<longrightarrow>
        (\<exists>hd x xb. VmadHandlerQUST_dump_data q = Inr (x, xb) \<and> out = hd @ xb))"
proof (intro conjI impI)
  assume "dumpData owner = Inr (owner', Some out)"
  from dumpData_Inr [OF this] show "take 4 out = [5, 0, 2, 0]" by auto
next
  assume "Alias_dump_data a = Inr (a', ab)"
  from Alias_dump_data_Inr [OF this]
  show "take 4 (drop 8 ab) = [5, 0, 2, 0]" and "alias_vmad_version a' = 5"
    and "alias_obj_format a' = 2"
    by auto
next
  assume "VmadHandlerQUST_dump_data q = Inr (q', qb)"
  from VmadHandlerQUST_dump_data_Inr [OF this] obtain n fs als ab where
    d: "dump_each_upd Alias_dump_data (aliases q) = Inr (als, ab)"
    and b: "qb = bytes1 (extra_bind_data_version_qust q)
               @ bytes2 (int (length (fragments_qust q))) @ n @ fs
               @ bytes2 (int (length (aliases q))) @ ab"
    by blast
  from dump_each_upd_chunks [OF d] obtain cs where
    c: "ab = concat cs" "length cs = length (aliases q)"
      "\<forall>i<length (aliases q). Alias_dump_data (aliases q ! i) = Inr (als ! i, cs ! i)"
    by blast
  have "\<forall>i<length (aliases q). take 4 (drop 8 (cs ! i)) = [5, 0, 2, 0]
                 \<and> (\<exists>x. Alias_dump_data (aliases q ! i) = Inr (x, cs ! i))"
  proof (intro allI impI)
    fix i assume "i < length (aliases q)"
    with c(3) have e: "Alias_dump_data (aliases q ! i) = Inr (als ! i, cs ! i)" by simp
    from Alias_dump_data_Inr [OF e] have "take 4 (drop 8 (cs ! i)) = [5, 0, 2, 0]" by auto
    with e show "take 4 (drop 8 (cs ! i)) = [5, 0, 2, 0]
        \<and> (\<exists>x. Alias_dump_data (aliases q ! i) = Inr (x, cs ! i))"
      by blast
  qed
  with b c(1,2) show "\<exists>hd cs. qb = hd @ concat cs \<and> length cs = length (aliases q)
           \<and> (\<forall>i<length (aliases q). take 4 (drop 8 (cs ! i)) = [5, 0, 2, 0]
                 \<and> (\<exists>x. Alias_dump_data (aliases q ! i) = Inr (x, cs ! i)))"
    by (intro exI [of _ "bytes1 (extra_bind_data_version_qust q)
               @ bytes2 (int (length (fragments_qust q))) @ n @ fs
               @ bytes2 (int (length (aliases q)))"] exI [of _ cs]) simp
next
  assume a: "dumpData owner = Inr (owner', Some out) \<and> vmdata owner = Some vmad
        \<and> special_data vmad = Handler (SpecialQUST q) \<and> recType owner = ''QUST''"
  then have d: "dumpData owner = Inr (owner', Some out)" by simp
  from a obtain ss where s: "scripts_vmad vmad = Some ss"
    by (cases "scripts_vmad vmad") (auto simp: dumpData_def pack_h_5_2)
  from d a s show "\<exists>hd x xb. VmadHandlerQUST_dump_data q = Inr (x, xb) \<and> out = hd @ xb"
    by (auto simp: dumpData_def pack_h_5_2 bindE_Inr_iff Let_def handler_map_def
        handler_dump_data_def)
qed

theorem dump_writes_version_5_format_2_witness:
  "alias_vmad_version sample_alias = 3 \<and> alias_obj_format sample_alias = 1
   \<and> Alias_dump_data sample_alias
       = Inr (sample_alias\<lparr>alias_vmad_version := 5, alias_obj_format := 2, script_count := 1,
                scripts := [\<lparr>script_name = [0x54], script_flags = 0, property_count = 1,
                  properties = [\<lparr>prop_name = [0x55], prop_type = 1, prop_flags = 1,
                    prop_data = PObject \<lparr>aid = -2, fid = 23\<rparr>\<rparr>]\<rparr>]\<rparr>,
              [0, 0, 3, 0, 0x16, 0, 0, 0, 5, 0, 2, 0, 1, 0,
               1, 0, 0x54, 0, 1, 0,
               1, 0, 0x55, 1, 1, 0, 0, 0xFE, 0xFF, 0x17, 0, 0, 0])
   \<and> take 4 (the (snd (projr (dumpData sample_record)))) = [5, 0, 2, 0]"
proof -
  have a: "Alias_dump_data sample_alias
       = Inr (sample_alias\<lparr>alias_vmad_version := 5, alias_obj_format := 2, script_count := 1,
                scripts := [\<lparr>script_name = [0x54], script_flags = 0, property_count = 1,
                  properties = [\<lparr>prop_name = [0x55], prop_type = 1, prop_flags = 1,
                    prop_data = PObject \<lparr>aid = -2, fid = 23\<rparr>\<rparr>]\<rparr>]\<rparr>,
              [0, 0, 3, 0, 0x16, 0, 0, 0, 5, 0, 2, 0, 1, 0,
               1, 0, 0x54, 0, 1, 0,
               1, 0, 0x55, 1, 1, 0, 0, 0xFE, 0xFF, 0x17, 0, 0, 0])"
    by (simp add: sample_defs dump_defs eval_defs Let_def)
  obtain o1 out1 where d: "dumpData sample_record = Inr (o1, Some out1)"
    by (simp add: sample_defs dump_defs eval_defs Let_def)
  note t = dump_writes_version_5_format_2 [where owner = sample_record and owner' = o1
      and out = out1 and a = sample_alias, THEN conjunct1, rule_format, OF d]
  from t d a show ?thesis by (simp add: sample_alias_def)
qed

section \<open>Facts about the counts of arrays and containers\<close>

lemma dump_prop_data_array_Inr:
  "dump_prop_data 11 (PObjectArray rs) = Inr pb \<Longrightarrow> take 4 pb = bytes4 (int (length rs))"
  "dump_prop_data 12 (PStringArray ss) = Inr pb \<Longrightarrow> take 4 pb = bytes4 (int (length ss))"
  "dump_prop_data 13 (PSint32Array ns) = Inr pb \<Longrightarrow> take 4 pb = bytes4 (int (length ns))"
  "dump_prop_data 14 (PFloatArray ws) = Inr pb \<Longrightarrow> take 4 pb = bytes4 (int (length ws))"
  "dump_prop_data 15 (PBoolArray xs) = Inr pb \<Longrightarrow> take 4 pb = bytes4 (int (length xs))"
  by (auto simp: dump_prop_data_def dump_array_def bindE_Inr_iff length_bytes dest!: pack_I_Inr)

lemma stored_count_ignored:
  "Script_dump_data (s\<lparr>property_count := c\<rparr>) = Script_dump_data s"
  "Alias_dump_data (a\<lparr>script_count := c\<rparr>) = Alias_dump_data a"
  "VmadHandlerPERK_dump_data (pk\<lparr>fragment_count_perk := c\<rparr>) = VmadHandlerPERK_dump_data pk"
  "VmadHandlerQUST_dump_data (q\<lparr>fragment_count_qust := c\<rparr>) = VmadHandlerQUST_dump_data q"
  by (simp_all add: Script_dump_data_def Alias_dump_data_def VmadHandlerPERK_dump_data_def
      VmadHandlerQUST_dump_data_def Let_def)

section \<open>C6: every count written is the length of the list\<close>

text \<open>
  Claim C6. In every successful dump, the count field of a list-bearing component is the
  length of the list at that moment: the script count of the VMAD header, the property
  count of a script, the script count of an alias, the fragment counts of PERK and QUST
  special data, the alias count of QUST special data, the phase-fragment count of SCEN
  special data, and the 32-bit element count in front of every array payload. The stored
  count attribute plays no part: changing it changes neither the bytes nor the component
  as it is after the dump.
\<close>

theorem dump_counts_are_list_lengths:
  "(dumpData owner = Inr (owner', Some out) \<and> vmdata owner = Some vmad
      \<and> scripts_vmad vmad = Some ss \<longrightarrow>
      take 2 (drop 4 out) = bytes2 (int (length ss)))
   \<and> (Script_dump_data s = Inr (s', sb) \<longrightarrow>
        (\<exists>n ps. dump_vmad_str16 (script_name s) = Inr n
           \<and> sb = n @ [script_flags s] @ bytes2 (int (length (properties s))) @ ps)
        \<and> Script_dump_data (s\<lparr>property_count := c\<rparr>) = Inr (s', sb))
   \<and> (Alias_dump_data a = Inr (a', ab) \<longrightarrow>
        take 2 (drop 12 ab) = bytes2 (int (length (scripts a)))
        \<and> Alias_dump_data (a\<lparr>script_count := c\<rparr>) = Inr (a', ab))
   \<and> (VmadHandlerPERK_dump_data pk = Inr (pk', pb) \<longrightarrow>
        (\<exists>n fs. dump_vmad_str16 (file_name_perk pk) = Inr n
           \<and> pb = bytes1 (extra_bind_data_version_perk pk) @ n
                    @ bytes2 (int (length (fragments_perk pk))) @ fs)
        \<and> VmadHandlerPERK_dump_data (pk\<lparr>fragment_count_perk := c\<rparr>) = Inr (pk', pb))
   \<and> (VmadHandlerQUST_dump_data q = Inr (q', qb) \<longrightarrow>
        take 2 (drop 1 qb) = bytes2 (int (length (fragments_qust q)))
        \<and> (\<exists>hd als tl. dump_each_upd Alias_dump_data (aliases q) = Inr (als, tl)
              \<and> qb = hd @ bytes2 (int (length (aliases q))) @ tl)
        \<and> VmadHandlerQUST_dump_data (q\<lparr>fragment_count_qust := c\<rparr>) = Inr (q', qb))
   \<and> (VmadHandlerSCEN_dump_data sc = Inr (sc', scb) \<longrightarrow>
        (\<exists>hd ps. dump_each FragmentSCENPhase_dump_data (phase_fragments sc) = Inr ps
           \<and> scb = hd @ bytes2 (int (length (phase_fragments sc))) @ ps))
   \<and> (dump_array rs = Inr rb \<longrightarrow> take 4 rb = bytes4 (int (length rs)))
   \<and> (dump_prop_data 11 (PObjectArray rs) = Inr b11 \<longrightarrow> take 4 b11 = bytes4 (int (length rs)))
   \<and> (dump_prop_data 12 (PStringArray strs) = Inr b12 \<longrightarrow>
        take 4 b12 = bytes4 (int (length strs)))
   \<and> (dump_prop_data 13 (PSint32Array ns) = Inr b13 \<longrightarrow> take 4 b13 = bytes4 (int (length ns)))
   \<and> (dump_prop_data 14 (PFloatArray ws) = Inr b14 \<longrightarrow> take 4 b14 = bytes4 (int (length ws)))
   \<and> (dump_prop_data 15 (PBoolArray xs) = Inr b15 \<longrightarrow> take 4 b15 = bytes4 (int (length xs)))"
proof (intro conjI impI)
  assume a: "dumpData owner = Inr (owner', Some out) \<and> vmdata owner = Some vmad
      \<and> scripts_vmad vmad = Some ss"
  then have "dumpData owner = Inr (owner', Some out)" by simp
  from dumpData_Inr [OF this] a show "take 2 (drop 4 out) = bytes2 (int (length ss))"
    by (auto simp: length_bytes)
next
  assume d: "Script_dump_data s = Inr (s', sb)"
  from Script_dump_data_Inr [OF d]
  show "\<exists>n ps. dump_vmad_str16 (script_name s) = Inr n
           \<and> sb = n @ [script_flags s] @ bytes2 (int (length (properties s))) @ ps"
    by blast
  from d show "Script_dump_data (s\<lparr>property_count := c\<rparr>) = Inr (s', sb)"
    by (simp add: stored_count_ignored)
next
  assume d: "Alias_dump_data a = Inr (a', ab)"
  from Alias_dump_data_Inr [OF d]
  show "take 2 (drop 12 ab) = bytes2 (int (length (scripts a)))"
    by (auto simp: length_bytes)
  from d show "Alias_dump_data (a\<lparr>script_count := c\<rparr>) = Inr (a', ab)"
    by (simp add: stored_count_ignored)
next
  assume d: "VmadHandlerPERK_dump_data pk = Inr (pk', pb)"
  from VmadHandlerPERK_dump_data_Inr [OF d]
  show "\<exists>n fs. dump_vmad_str16 (file_name_perk pk) = Inr n
           \<and> pb = bytes1 (extra_bind_data_version_perk pk) @ n
                    @ bytes2 (int (length (fragments_perk pk))) @ fs"
    by blast
  from d show "VmadHandlerPERK_dump_data (pk\<lparr>fragment_count_perk := c\<rparr>) = Inr (pk', pb)"
    by (simp add: stored_count_ignored)
next
  assume d: "VmadHandlerQUST_dump_data q = Inr (q', qb)"
  from VmadHandlerQUST_dump_data_Inr [OF d] obtain n fs als tl where
    u: "dump_each_upd Alias_dump_data (aliases q) = Inr (als, tl)"
    and b: "qb = bytes1 (extra_bind_data_version_qust q)
               @ bytes2 (int (length (fragments_qust q))) @ n @ fs
               @ bytes2 (int (length (aliases q))) @ tl"
    by blast
  from b show "take 2 (drop 1 qb) = bytes2 (int (length (fragments_qust q)))"
    by (simp add: length_bytes)
  from u b show "\<exists>hd als tl. dump_each_upd Alias_dump_data (aliases q) = Inr (als, tl)
              \<and> qb = hd @ bytes2 (int (length (aliases q))) @ tl"
    by (intro exI [of _ "bytes1 (extra_bind_data_version_qust q)
               @ bytes2 (int (length (fragments_qust q))) @ n @ fs"] exI [of _ als]
        exI [of _ tl]) simp
  from d show "VmadHandlerQUST_dump_data (q\<lparr>fragment_count_qust := c\<rparr>) = Inr (q', qb)"
    by (simp add: stored_count_ignored)
next
  assume d: "VmadHandlerSCEN_dump_data sc = Inr (sc', scb)"
  from VmadHandlerSCEN_dump_data_Inr [OF d] obtain n cs ps where
    u: "dump_each FragmentSCENPhase_dump_data (phase_fragments sc) = Inr ps"
    and b: "scb = bytes1 (extra_bind_data_version_scen sc) @ [fragment_flags_scen sc'] @ n @ cs
               @ bytes2 (int (length (phase_fragments sc))) @ ps"
    by blast
  then show "\<exists>hd ps. dump_each FragmentSCENPhase_dump_data (phase_fragments sc) = Inr ps
           \<and> scb = hd @ bytes2 (int (length (phase_fragments sc))) @ ps"
    by (intro exI [of _ "bytes1 (extra_bind_data_version_scen sc) @ [fragment_flags_scen sc']
          @ n @ cs"] exI [of _ ps]) simp
next
  assume "dump_array rs = Inr rb"
  from dump_array_Inr [OF this] show "take 4 rb = bytes4 (int (length rs))"
    by (auto simp: length_bytes)
qed (rule dump_prop_data_array_Inr, assumption)+

theorem dump_counts_are_list_lengths_witness:
  "property_count sample_script = 9 \<and> length (properties sample_script) = 3
   \<and> Script_dump_data sample_script
       = Inr (sample_script\<lparr>property_count := 3\<rparr>,
              [1, 0, 0x53, 0, 3, 0,
               1, 0, 0x50, 1, 1, 0, 0, 0xFF, 0xFF, 0x14, 0, 0, 0,
               1, 0, 0x51, 3, 1, 7, 0, 0, 0,
               1, 0, 0x52, 11, 1, 1, 0, 0, 0, 0, 0, 0, 0, 0x15, 0, 0, 0])
   \<and> Script_dump_data (sample_script\<lparr>property_count := 0\<rparr>) = Script_dump_data sample_script
   \<and> dump_array [\<lparr>aid = 0, fid = 21\<rparr>] = Inr [1, 0, 0, 0, 0, 0, 0, 0, 0x15, 0, 0, 0]"
proof -
  have d: "Script_dump_data sample_script
       = Inr (sample_script\<lparr>property_count := 3\<rparr>,
              [1, 0, 0x53, 0, 3, 0,
               1, 0, 0x50, 1, 1, 0, 0, 0xFF, 0xFF, 0x14, 0, 0, 0,
               1, 0, 0x51, 3, 1, 7, 0, 0, 0,
               1, 0, 0x52, 11, 1, 1, 0, 0, 0, 0, 0, 0, 0, 0x15, 0, 0, 0])"
    by (simp add: sample_defs dump_defs eval_defs Let_def)
  have r: "dump_array [\<lparr>aid = 0, fid = 21\<rparr>] = Inr [1, 0, 0, 0, 0, 0, 0, 0, 0x15, 0, 0, 0]"
    by (simp add: eval_defs)
  note t = dump_counts_are_list_lengths [where s = sample_script and c = 0
      and s' = "sample_script\<lparr>property_count := 3\<rparr>"
      and sb = "[1, 0, 0x53, 0, 3, 0,
               1, 0, 0x50, 1, 1, 0, 0, 0xFF, 0xFF, 0x14, 0, 0, 0,
               1, 0, 0x51, 3, 1, 7, 0, 0, 0,
               1, 0, 0x52, 11, 1, 1, 0, 0, 0, 0, 0, 0, 0, 0x15, 0, 0, 0]",
      THEN conjunct2, THEN conjunct1, rule_format, OF d]
  from t d r show ?thesis by (simp add: sample_script_def)
qed


section \<open>C10: a dump updates the tree\<close>



section \<open>Facts about loading what a fixed-slot handler dumped\<close>

text \<open>
  Whatever INFO or PACK special data dumps to is loaded back as the special data is
  after the dump, with the same children present, provided its texts are decodable. The
  same holds for SCEN special data without phase fragments. A SCEN phase fragment never
  loads, so no loaded SCEN special data has one.
\<close>

lemma drop_after: "drop p d = bs @ rest \<Longrightarrow> drop (p + length bs) d = rest"
  by (metis add.commute append_eq_conv_conj drop_drop)

lemma drop_bound: "drop p d = bs @ rest \<Longrightarrow> bs \<noteq> [] \<Longrightarrow> p + length bs \<le> length d"
proof -
  assume a: "drop p d = bs @ rest" and n: "bs \<noteq> []"
  have "length (drop p d) = length d - p" by simp
  with a have "length d - p = length bs + length rest" by simp
  moreover from n have "0 < length bs" by simp
  ultimately show ?thesis by linarith
qed

lemma ins_unpack_drop:
  assumes "drop p d = bs @ rest" and "length bs = k" and "0 < k"
  shows "ins_unpack k \<lparr>ins_data = d, ins_pos = p\<rparr> = Inr (bs, \<lparr>ins_data = d, ins_pos = p + k\<rparr>)"
proof -
  from assms have "bs \<noteq> []" by auto
  from drop_bound [OF assms(1) this] assms(2) have "p + k \<le> length d" by simp
  with assms show ?thesis by (simp add: ins_unpack_def)
qed

lemma dump_vmad_str16_Inr:
  "dump_vmad_str16 s = Inr b \<Longrightarrow> b = bytes2 (int (length s)) @ s \<and> length s \<le> 65535"
  by (auto simp: dump_vmad_str16_def pack_H_def split: if_splits)

lemma read_vmad_str16_drop:
  assumes "drop p d = bytes2 (int (length s)) @ s @ rest" and "length s \<le> 65535"
    and "decodable s"
  shows "read_vmad_str16 \<lparr>ins_data = d, ins_pos = p\<rparr>
    = Inr (s, \<lparr>ins_data = d, ins_pos = p + 2 + length s\<rparr>)"
proof -
  have a: "ins_unpack 2 \<lparr>ins_data = d, ins_pos = p\<rparr>
      = Inr (bytes2 (int (length s)), \<lparr>ins_data = d, ins_pos = p + 2\<rparr>)"
    by (rule ins_unpack_drop [OF assms(1)]) (simp_all add: length_bytes)
  have n: "nat (unpack_H (bytes2 (int (length s)))) = length s"
    using assms(2) by (simp add: unpack_H_bytes2)
  from drop_after [OF assms(1)] have r: "drop (p + 2) d = s @ rest" by (simp add: length_bytes)
  from drop_bound [OF assms(1)] have "p + 2 \<le> length d" by (simp add: length_bytes bytes2_def)
  moreover have "length d - (p + 2) = length s + length rest"
    using r by (metis length_drop length_append)
  ultimately have "p + 2 + length s \<le> length d" by linarith
  with r have b: "ins_read (length s) \<lparr>ins_data = d, ins_pos = p + 2\<rparr>
      = Inr (s, \<lparr>ins_data = d, ins_pos = p + 2 + length s\<rparr>)"
    by (simp add: ins_read_def)
  show ?thesis
    unfolding read_vmad_str16_def a bindE.simps prod.case n b
    using assms(3) by (simp add: cp1252_decode_def decodable_def)
qed

lemma unpack_b_bytes1: "-128 \<le> n \<Longrightarrow> n \<le> 127 \<Longrightarrow> unpack_b (bytes1 n) = n"
proof (cases "0 \<le> n")
  case True
  assume "n \<le> 127"
  with True have "n mod 256 = n" by simp
  with True \<open>n \<le> 127\<close> show ?thesis by (simp add: unpack_b_def le_uint_bytes1)
next
  case False
  assume "-128 \<le> n"
  with False have "(n + 256) mod 256 = n + 256" by (intro mod_pos_pos_trivial) auto
  then have "n mod 256 = n + 256" by simp
  with False \<open>-128 \<le> n\<close> show ?thesis by (simp add: unpack_b_def le_uint_bytes1)
qed

lemma pack_b_Inr_range: "pack_b n = Inr bs \<Longrightarrow> bs = bytes1 n \<and> -128 \<le> n \<and> n \<le> 127"
  by (auto simp: pack_b_def split: if_splits)

lemma FragmentBasic_roundtrip:
  assumes d: "FragmentBasic_dump_data c = Inr cb"
    and s: "decodable (script_name_basic c)" "decodable (fragment_name_basic c)"
    and at: "drop p d = cb @ rest"
  shows "FragmentBasic_load_data v fmt \<lparr>ins_data = d, ins_pos = p\<rparr>
    = Inr (c, \<lparr>ins_data = d, ins_pos = p + length cb\<rparr>)"
proof -
  from d obtain u sn fn where
    u: "pack_b (unknown1_basic c) = Inr u"
    and sn: "dump_vmad_str16 (script_name_basic c) = Inr sn"
    and fn: "dump_vmad_str16 (fragment_name_basic c) = Inr fn"
    and cb: "cb = u @ sn @ fn"
    by (auto simp: FragmentBasic_dump_data_def bindE_Inr_iff)
  note ur = pack_b_Inr_range [OF u]
  note snr = dump_vmad_str16_Inr [OF sn]
  note fnr = dump_vmad_str16_Inr [OF fn]
  from at cb ur have a1: "drop p d = bytes1 (unknown1_basic c) @ (sn @ fn @ rest)" by simp
  have r1: "ins_unpack 1 \<lparr>ins_data = d, ins_pos = p\<rparr>
      = Inr (bytes1 (unknown1_basic c), \<lparr>ins_data = d, ins_pos = p + 1\<rparr>)"
    by (rule ins_unpack_drop [OF a1]) (simp_all add: length_bytes)
  from drop_after [OF a1] snr have a2: "drop (p + 1) d
      = bytes2 (int (length (script_name_basic c))) @ script_name_basic c @ (fn @ rest)"
    by (simp add: length_bytes)
  note r2 = read_vmad_str16_drop [OF a2 conjunct2 [OF snr] s(1)]
  from drop_after [OF a2] drop_after [of "p + 1 + 2" d "script_name_basic c" "fn @ rest"] fnr
  have a3: "drop (p + 1 + 2 + length (script_name_basic c)) d
      = bytes2 (int (length (fragment_name_basic c))) @ fragment_name_basic c @ rest"
    by (simp add: length_bytes)
  note r3 = read_vmad_str16_drop [OF a3 conjunct2 [OF fnr] s(2)]
  have l: "length cb = 1 + 2 + length (script_name_basic c) + 2 + length (fragment_name_basic c)"
    using cb ur snr fnr by (simp add: length_bytes)
  show ?thesis
    unfolding FragmentBasic_load_data_def r1 bindE.simps prod.case r2 r3 l
    using ur by (simp add: unpack_b_bytes1 add.assoc)
qed


lemma present_simps:
  "present [] = []" "present (None # ocs) = present ocs" "present (Some c # ocs) = c # present ocs"
  by (simp_all add: present_def List.map_filter_def)

lemma load_child_if_roundtrip:
  assumes d: "dump_each FragmentBasic_dump_data (present (oc # ocs)) = Inr cs"
    and ok: "frag_decodable oc"
    and at: "drop p d = cs @ rest"
  shows "\<exists>cb cs'. load_child_if (oc \<noteq> None) (FragmentBasic_load_data v fmt)
        \<lparr>ins_data = d, ins_pos = p\<rparr> = Inr (oc, \<lparr>ins_data = d, ins_pos = p + length cb\<rparr>)
      \<and> cs = cb @ cs' \<and> dump_each FragmentBasic_dump_data (present ocs) = Inr cs'
      \<and> drop (p + length cb) d = cs' @ rest"
proof (cases oc)
  case None
  with d at show ?thesis
    by (intro exI [of _ "[]"] exI [of _ cs]) (simp add: load_child_if_def present_simps)
next
  case (Some c)
  with d obtain cb cs' where
    c: "FragmentBasic_dump_data c = Inr cb"
    and t: "dump_each FragmentBasic_dump_data (present ocs) = Inr cs'"
    and e: "cs = cb @ cs'"
    by (auto simp: present_simps bindE_Inr_iff)
  from at e have a: "drop p d = cb @ (cs' @ rest)" by simp
  from ok Some have dk: "decodable (script_name_basic c)" "decodable (fragment_name_basic c)"
    by (simp_all add: frag_decodable_def)
  note r = FragmentBasic_roundtrip [OF c dk a, of v fmt]
  from r Some t e drop_after [OF a] show ?thesis
    by (intro exI [of _ cb] exI [of _ cs']) (simp add: load_child_if_def)
qed

lemma INFO_header_range:
  "VmadHandlerINFO_dump_data r = Inr (r', bs) \<Longrightarrow>
   -128 \<le> extra_bind_data_version_info r \<and> extra_bind_data_version_info r \<le> 127"
  by (auto simp: VmadHandlerINFO_dump_data_def Let_def bindE_Inr_iff pack_b_def
      split: if_splits)

lemma VmadHandlerINFO_roundtrip:
  assumes d: "VmadHandlerINFO_dump_data r = Inr (r', bs)"
    and ok: "decodable (file_name_info r)" "frag_decodable (begin_frag_info r)"
      "frag_decodable (end_frag_info r)"
    and at: "drop p d = bs @ rest"
  shows "VmadHandlerINFO_load_data v fmt \<lparr>ins_data = d, ins_pos = p\<rparr>
    = Inr (r', \<lparr>ins_data = d, ins_pos = p + length bs\<rparr>)"
proof -
  let ?fl = "set_flag (set_flag (fragment_flags_info r) 0 (begin_frag_info r \<noteq> None)) 1
                   (end_frag_info r \<noteq> None)"
  from VmadHandlerINFO_dump_data_Inr [OF d] obtain n cs where
    n: "dump_vmad_str16 (file_name_info r) = Inr n"
    and c: "dump_each FragmentBasic_dump_data (present [begin_frag_info r, end_frag_info r])
        = Inr cs"
    and r': "r' = r\<lparr>fragment_flags_info := ?fl\<rparr>"
    and bs: "bs = bytes1 (extra_bind_data_version_info r) @ [fragment_flags_info r'] @ n @ cs"
    by blast
  note rng = INFO_header_range [OF d]
  note nr = dump_vmad_str16_Inr [OF n]
  from r' have fl: "fragment_flags_info r' = ?fl" by simp
  from at bs fl have a1: "drop p d
      = bytes1 (extra_bind_data_version_info r) @ ([?fl] @ n @ cs @ rest)"
    by simp
  have r1: "ins_unpack 1 \<lparr>ins_data = d, ins_pos = p\<rparr>
      = Inr (bytes1 (extra_bind_data_version_info r), \<lparr>ins_data = d, ins_pos = p + 1\<rparr>)"
    by (rule ins_unpack_drop [OF a1]) (simp_all add: length_bytes)
  from drop_after [OF a1] have a2: "drop (p + 1) d = [?fl] @ (n @ cs @ rest)"
    by (simp add: length_bytes)
  have r2: "ins_unpack 1 \<lparr>ins_data = d, ins_pos = p + 1\<rparr>
      = Inr ([?fl], \<lparr>ins_data = d, ins_pos = p + 1 + 1\<rparr>)"
    by (rule ins_unpack_drop [OF a2]) simp_all
  from drop_after [OF a2] nr have a3: "drop (p + 1 + 1) d
      = bytes2 (int (length (file_name_info r))) @ file_name_info r @ (cs @ rest)"
    by simp
  note r3 = read_vmad_str16_drop [OF a3 conjunct2 [OF nr] ok(1)]
  from drop_after [OF a3] drop_after [of "p + 1 + 1 + 2" d "file_name_info r" "cs @ rest"]
  have a4: "drop (p + 1 + 1 + 2 + length (file_name_info r)) d = cs @ rest"
    by (simp add: length_bytes)
  from load_child_if_roundtrip [OF c ok(2) a4, of v fmt] obtain cb cs' where
    r4: "load_child_if (begin_frag_info r \<noteq> None) (FragmentBasic_load_data v fmt)
        \<lparr>ins_data = d, ins_pos = p + 1 + 1 + 2 + length (file_name_info r)\<rparr>
        = Inr (begin_frag_info r,
               \<lparr>ins_data = d, ins_pos = p + 1 + 1 + 2 + length (file_name_info r) + length cb\<rparr>)"
    and e4: "cs = cb @ cs'"
    and c': "dump_each FragmentBasic_dump_data (present [end_frag_info r]) = Inr cs'"
    and a5: "drop (p + 1 + 1 + 2 + length (file_name_info r) + length cb) d = cs' @ rest"
    by blast
  from load_child_if_roundtrip [OF c' ok(3) a5, of v fmt] obtain cb2 cs2 where
    r5: "load_child_if (end_frag_info r \<noteq> None) (FragmentBasic_load_data v fmt)
        \<lparr>ins_data = d, ins_pos = p + 1 + 1 + 2 + length (file_name_info r) + length cb\<rparr>
        = Inr (end_frag_info r,
               \<lparr>ins_data = d,
                ins_pos = p + 1 + 1 + 2 + length (file_name_info r) + length cb + length cb2\<rparr>)"
    and e5: "cs' = cb2 @ cs2"
    and c2: "dump_each FragmentBasic_dump_data (present []) = Inr cs2"
    by blast
  from c2 have "cs2 = []" by (simp add: present_simps)
  with bs e4 e5 nr have l: "length bs = 1 + 1 + 2 + length (file_name_info r) + length cb + length cb2"
    by (simp add: length_bytes)
  have f0: "is_flag_set ?fl 0 = (begin_frag_info r \<noteq> None)"
    and f1: "is_flag_set ?fl 1 = (end_frag_info r \<noteq> None)"
    by (simp_all add: is_flag_set_set_flag)
  have w: "word_of_int (unpack_B [?fl]) = ?fl" by (rule word_of_uint_byte)
  show ?thesis
    unfolding VmadHandlerINFO_load_data_def r1 bindE.simps prod.case r2 r3 Let_def w f0 f1 r4 r5 l
    using rng r' by (simp add: unpack_b_bytes1 add.assoc)
qed

lemma PACK_header_range:
  "VmadHandlerPACK_dump_data r = Inr (r', bs) \<Longrightarrow>
   -128 \<le> extra_bind_data_version_pack r \<and> extra_bind_data_version_pack r \<le> 127"
  by (auto simp: VmadHandlerPACK_dump_data_def Let_def bindE_Inr_iff pack_b_def
      split: if_splits)

lemma VmadHandlerPACK_roundtrip:
  assumes d: "VmadHandlerPACK_dump_data r = Inr (r', bs)"
    and ok: "decodable (file_name_pack r)" "frag_decodable (begin_frag_pack r)"
      "frag_decodable (end_frag_pack r)" "frag_decodable (change_frag_pack r)"
    and at: "drop p d = bs @ rest"
  shows "VmadHandlerPACK_load_data v fmt \<lparr>ins_data = d, ins_pos = p\<rparr>
    = Inr (r', \<lparr>ins_data = d, ins_pos = p + length bs\<rparr>)"
proof -
  let ?fl = "set_flag (set_flag (set_flag (fragment_flags_pack r) 0
                   (begin_frag_pack r \<noteq> None)) 1 (end_frag_pack r \<noteq> None)) 2
                   (change_frag_pack r \<noteq> None)"
  from VmadHandlerPACK_dump_data_Inr [OF d] obtain n cs where
    n: "dump_vmad_str16 (file_name_pack r) = Inr n"
    and c: "dump_each FragmentBasic_dump_data (present [begin_frag_pack r, end_frag_pack r, change_frag_pack r])
        = Inr cs"
    and r': "r' = r\<lparr>fragment_flags_pack := ?fl\<rparr>"
    and bs: "bs = bytes1 (extra_bind_data_version_pack r) @ [fragment_flags_pack r'] @ n @ cs"
    by blast
  note rng = PACK_header_range [OF d]
  note nr = dump_vmad_str16_Inr [OF n]
  from r' have fl: "fragment_flags_pack r' = ?fl" by simp
  from at bs fl have a1: "drop p d
      = bytes1 (extra_bind_data_version_pack r) @ ([?fl] @ n @ cs @ rest)"
    by simp
  have r1: "ins_unpack 1 \<lparr>ins_data = d, ins_pos = p\<rparr>
      = Inr (bytes1 (extra_bind_data_version_pack r), \<lparr>ins_data = d, ins_pos = p + 1\<rparr>)"
    by (rule ins_unpack_drop [OF a1]) (simp_all add: length_bytes)
  from drop_after [OF a1] have a2: "drop (p + 1) d = [?fl] @ (n @ cs @ rest)"
    by (simp add: length_bytes)
  have r2: "ins_unpack 1 \<lparr>ins_data = d, ins_pos = p + 1\<rparr>
      = Inr ([?fl], \<lparr>ins_data = d, ins_pos = p + 1 + 1\<rparr>)"
    by (rule ins_unpack_drop [OF a2]) simp_all
  from drop_after [OF a2] nr have a3: "drop (p + 1 + 1) d
      = bytes2 (int (length (file_name_pack r))) @ file_name_pack r @ (cs @ rest)"
    by simp
  note r3 = read_vmad_str16_drop [OF a3 conjunct2 [OF nr] ok(1)]
  from drop_after [OF a3] drop_after [of "p + 1 + 1 + 2" d "file_name_pack r" "cs @ rest"]
  have a4: "drop (p + 1 + 1 + 2 + length (file_name_pack r)) d = cs @ rest"
    by (simp add: length_bytes)
  from load_child_if_roundtrip [OF c ok(2) a4, of v fmt] obtain cb cs' where
    r4: "load_child_if (begin_frag_pack r \<noteq> None) (FragmentBasic_load_data v fmt)
        \<lparr>ins_data = d, ins_pos = p + 1 + 1 + 2 + length (file_name_pack r)\<rparr>
        = Inr (begin_frag_pack r,
               \<lparr>ins_data = d, ins_pos = p + 1 + 1 + 2 + length (file_name_pack r) + length cb\<rparr>)"
    and e4: "cs = cb @ cs'"
    and c': "dump_each FragmentBasic_dump_data (present [end_frag_pack r, change_frag_pack r]) = Inr cs'"
    and a5: "drop (p + 1 + 1 + 2 + length (file_name_pack r) + length cb) d = cs' @ rest"
    by blast
  from load_child_if_roundtrip [OF c' ok(3) a5, of v fmt] obtain cb2 cs2 where
    r5: "load_child_if (end_frag_pack r \<noteq> None) (FragmentBasic_load_data v fmt)
        \<lparr>ins_data = d, ins_pos = p + 1 + 1 + 2 + length (file_name_pack r) + length cb\<rparr>
        = Inr (end_frag_pack r,
               \<lparr>ins_data = d,
                ins_pos = p + 1 + 1 + 2 + length (file_name_pack r) + length cb + length cb2\<rparr>)"
    and e5: "cs' = cb2 @ cs2"
    and c2: "dump_each FragmentBasic_dump_data (present [change_frag_pack r]) = Inr cs2"
    and a6: "drop (p + 1 + 1 + 2 + length (file_name_pack r) + length cb + length cb2) d
        = cs2 @ rest"
    by blast
  from load_child_if_roundtrip [OF c2 ok(4) a6, of v fmt] obtain cb3 cs3 where
    r6: "load_child_if (change_frag_pack r \<noteq> None) (FragmentBasic_load_data v fmt)
        \<lparr>ins_data = d,
         ins_pos = p + 1 + 1 + 2 + length (file_name_pack r) + length cb + length cb2\<rparr>
        = Inr (change_frag_pack r,
               \<lparr>ins_data = d,
                ins_pos = p + 1 + 1 + 2 + length (file_name_pack r) + length cb + length cb2
                  + length cb3\<rparr>)"
    and e6: "cs2 = cb3 @ cs3"
    and c3: "dump_each FragmentBasic_dump_data (present []) = Inr cs3"
    by blast
  from c3 have "cs3 = []" by (simp add: present_simps)
  with bs e4 e5 e6 nr have l: "length bs
      = 1 + 1 + 2 + length (file_name_pack r) + length cb + length cb2 + length cb3"
    by (simp add: length_bytes)
  have f0: "is_flag_set ?fl 0 = (begin_frag_pack r \<noteq> None)"
    and f1: "is_flag_set ?fl 1 = (end_frag_pack r \<noteq> None)"
    and f2: "is_flag_set ?fl 2 = (change_frag_pack r \<noteq> None)"
    by (simp_all add: is_flag_set_set_flag)
  have w: "word_of_int (unpack_B [?fl]) = ?fl" by (rule word_of_uint_byte)
  show ?thesis
    unfolding VmadHandlerPACK_load_data_def r1 bindE.simps prod.case r2 r3 Let_def w f0 f1 f2 r4 r5 r6 l
    using rng r' by (simp add: unpack_b_bytes1 add.assoc)
qed

lemma SCEN_header_range:
  "VmadHandlerSCEN_dump_data r = Inr (r', bs) \<Longrightarrow>
   -128 \<le> extra_bind_data_version_scen r \<and> extra_bind_data_version_scen r \<le> 127"
  by (auto simp: VmadHandlerSCEN_dump_data_def Let_def bindE_Inr_iff pack_b_def
      split: if_splits)

lemma VmadHandlerSCEN_roundtrip_no_phases:
  assumes d: "VmadHandlerSCEN_dump_data r = Inr (r', bs)"
    and ok: "decodable (file_name_scen r)" "frag_decodable (begin_frag_scen r)"
      "frag_decodable (end_frag_scen r)"
    and nop: "phase_fragments r = []"
    and at: "drop p d = bs @ rest"
  shows "VmadHandlerSCEN_load_data v fmt \<lparr>ins_data = d, ins_pos = p\<rparr>
    = Inr (r', \<lparr>ins_data = d, ins_pos = p + length bs\<rparr>)"
proof -
  let ?fl = "set_flag (set_flag (fragment_flags_scen r) 0 (begin_frag_scen r \<noteq> None)) 1
                   (end_frag_scen r \<noteq> None)"
  from VmadHandlerSCEN_dump_data_Inr [OF d] nop obtain n cs where
    n: "dump_vmad_str16 (file_name_scen r) = Inr n"
    and c: "dump_each FragmentBasic_dump_data (present [begin_frag_scen r, end_frag_scen r])
        = Inr cs"
    and r': "r' = r\<lparr>fragment_flags_scen := ?fl\<rparr>"
    and bs: "bs = bytes1 (extra_bind_data_version_scen r) @ [fragment_flags_scen r'] @ n @ cs
        @ bytes2 0"
    by auto
  note rng = SCEN_header_range [OF d]
  note nr = dump_vmad_str16_Inr [OF n]
  from r' have fl: "fragment_flags_scen r' = ?fl" by simp
  from at bs fl have a1: "drop p d
      = bytes1 (extra_bind_data_version_scen r) @ ([?fl] @ n @ cs @ bytes2 0 @ rest)"
    by simp
  have r1: "ins_unpack 1 \<lparr>ins_data = d, ins_pos = p\<rparr>
      = Inr (bytes1 (extra_bind_data_version_scen r), \<lparr>ins_data = d, ins_pos = p + 1\<rparr>)"
    by (rule ins_unpack_drop [OF a1]) (simp_all add: length_bytes)
  from drop_after [OF a1] have a2: "drop (p + 1) d = [?fl] @ (n @ cs @ bytes2 0 @ rest)"
    by (simp add: length_bytes)
  have r2: "ins_unpack 1 \<lparr>ins_data = d, ins_pos = p + 1\<rparr>
      = Inr ([?fl], \<lparr>ins_data = d, ins_pos = p + 1 + 1\<rparr>)"
    by (rule ins_unpack_drop [OF a2]) simp_all
  from drop_after [OF a2] nr have a3: "drop (p + 1 + 1) d
      = bytes2 (int (length (file_name_scen r))) @ file_name_scen r @ (cs @ bytes2 0 @ rest)"
    by simp
  note r3 = read_vmad_str16_drop [OF a3 conjunct2 [OF nr] ok(1)]
  from drop_after [OF a3] drop_after [of "p + 1 + 1 + 2" d "file_name_scen r" "cs @ bytes2 0 @ rest"]
  have a4: "drop (p + 1 + 1 + 2 + length (file_name_scen r)) d = cs @ (bytes2 0 @ rest)"
    by (simp add: length_bytes)
  from load_child_if_roundtrip [OF c ok(2) a4, of v fmt] obtain cb cs' where
    r4: "load_child_if (begin_frag_scen r \<noteq> None) (FragmentBasic_load_data v fmt)
        \<lparr>ins_data = d, ins_pos = p + 1 + 1 + 2 + length (file_name_scen r)\<rparr>
        = Inr (begin_frag_scen r,
               \<lparr>ins_data = d, ins_pos = p + 1 + 1 + 2 + length (file_name_scen r) + length cb\<rparr>)"
    and e4: "cs = cb @ cs'"
    and c': "dump_each FragmentBasic_dump_data (present [end_frag_scen r]) = Inr cs'"
    and a5: "drop (p + 1 + 1 + 2 + length (file_name_scen r) + length cb) d
        = cs' @ (bytes2 0 @ rest)"
    by blast
  from load_child_if_roundtrip [OF c' ok(3) a5, of v fmt] obtain cb2 cs2 where
    r5: "load_child_if (end_frag_scen r \<noteq> None) (FragmentBasic_load_data v fmt)
        \<lparr>ins_data = d, ins_pos = p + 1 + 1 + 2 + length (file_name_scen r) + length cb\<rparr>
        = Inr (end_frag_scen r,
               \<lparr>ins_data = d,
                ins_pos = p + 1 + 1 + 2 + length (file_name_scen r) + length cb + length cb2\<rparr>)"
    and e5: "cs' = cb2 @ cs2"
    and c2: "dump_each FragmentBasic_dump_data (present []) = Inr cs2"
    and a6: "drop (p + 1 + 1 + 2 + length (file_name_scen r) + length cb + length cb2) d
        = cs2 @ (bytes2 0 @ rest)"
    by blast
  from c2 have z: "cs2 = []" by (simp add: present_simps)
  with a6 have a7: "drop (p + 1 + 1 + 2 + length (file_name_scen r) + length cb + length cb2) d
        = bytes2 0 @ rest"
    by simp
  have r6: "ins_unpack 2
        \<lparr>ins_data = d,
         ins_pos = p + 1 + 1 + 2 + length (file_name_scen r) + length cb + length cb2\<rparr>
      = Inr (bytes2 0,
             \<lparr>ins_data = d,
              ins_pos = p + 1 + 1 + 2 + length (file_name_scen r) + length cb + length cb2 + 2\<rparr>)"
    by (rule ins_unpack_drop [OF a7]) (simp_all add: length_bytes)
  have n0: "nat (unpack_H (bytes2 0)) = 0" by (simp add: unpack_H_bytes2)
  from z bs e4 e5 nr have l: "length bs
      = 1 + 1 + 2 + length (file_name_scen r) + length cb + length cb2 + 2"
    by (simp add: length_bytes)
  have f0: "is_flag_set ?fl 0 = (begin_frag_scen r \<noteq> None)"
    and f1: "is_flag_set ?fl 1 = (end_frag_scen r \<noteq> None)"
    by (simp_all add: is_flag_set_set_flag)
  have w: "word_of_int (unpack_B [?fl]) = ?fl" by (rule word_of_uint_byte)
  show ?thesis
    unfolding VmadHandlerSCEN_load_data_def r1 bindE.simps prod.case r2 r3 Let_def w f0 f1 r4 r5 r6 n0 load_n.simps l
    using rng r' nop by (simp add: unpack_b_bytes1 add.assoc)
qed


lemma FragmentSCENPhase_load_data_fails:
  "FragmentSCENPhase_load_data v fmt ins \<noteq> Inr x"
  by (auto simp: FragmentSCENPhase_load_data_def bindE_Inr_iff Let_def)

lemma load_n_failing_loader:
  "(\<And>i x. ld i \<noteq> Inr x) \<Longrightarrow> load_n ld n ins = Inr (xs, ins') \<Longrightarrow> n = 0 \<and> xs = []"
  by (cases n) (auto simp: bindE_Inr_iff)

lemma VmadHandlerSCEN_load_data_no_phases:
  assumes "VmadHandlerSCEN_load_data v fmt ins = Inr (r, ins')"
  shows "phase_fragments r = []"
proof -
  from assms obtain k i xs j where
    l: "load_n (FragmentSCENPhase_load_data v fmt) k i = Inr (xs, j)"
    and e: "phase_fragments r = xs"
    by (auto simp: VmadHandlerSCEN_load_data_def bindE_Inr_iff Let_def)
  from load_n_failing_loader [OF _ l] FragmentSCENPhase_load_data_fails e show ?thesis
    by blast
qed


section \<open>C7: fixed-slot special data, flags and children\<close>

text \<open>
  Claim C7 at SCEN special data with a phase fragment. The dump sets the flag of the
  begin fragment, clears the flag of the absent end fragment and writes the begin
  fragment and the phase fragment. Loading these bytes back raises \<open>AttributeError\<close>:
  a phase fragment's loader reads the attribute \<^verbatim>\<open>fragment_phase_flags\<close>, which nothing
  assigns (the processors assign \<^verbatim>\<open>fragment_flags\<close>). The same bytes with a phase
  count of 0 load, with the begin fragment present and the end fragment absent.
\<close>

theorem SCEN_phase_fragment_load_fails:
  "VmadHandlerSCEN_dump_data sample_scen
     = Inr (sample_scen\<lparr>fragment_flags_scen := 1\<rparr>,
            [1, 1, 0, 0, 0, 1, 0, 0x53, 1, 0, 0x46, 1, 0,
             1, 0, 0, 0, 0, 0, 1, 0, 0x53, 1, 0, 0x47])
   \<and> VmadHandlerSCEN_load_data 5 2
       \<lparr>ins_data = [1, 1, 0, 0, 0, 1, 0, 0x53, 1, 0, 0x46, 1, 0,
                    1, 0, 0, 0, 0, 0, 1, 0, 0x53, 1, 0, 0x47], ins_pos = 0\<rparr>
     = Inl AttributeError
   \<and> VmadHandlerSCEN_load_data 5 2
       \<lparr>ins_data = [1, 1, 0, 0, 0, 1, 0, 0x53, 1, 0, 0x46, 0, 0], ins_pos = 0\<rparr>
     = Inr (sample_scen\<lparr>fragment_flags_scen := 1, phase_fragments := []\<rparr>,
            \<lparr>ins_data = [1, 1, 0, 0, 0, 1, 0, 0x53, 1, 0, 0x46, 0, 0], ins_pos = 13\<rparr>)"
  by (simp add: sample_scen_def VmadHandlerSCEN_dump_data_def VmadHandlerSCEN_load_data_def
      FragmentSCENPhase_dump_data_def FragmentSCENPhase_load_data_def
      FragmentBasic_load_data_def load_child_if_def is_flag_set_def dump_defs eval_defs Let_def)

section \<open>Facts about loading what a property dumps to\<close>











lemma drop_bound0: "drop p d = bs @ rest \<Longrightarrow> p \<le> length d \<Longrightarrow> p + length bs \<le> length d"
proof -
  assume a: "drop p d = bs @ rest" and b: "p \<le> length d"
  have "length d - p = length bs + length rest"
    using a by (metis length_drop length_append)
  with b show ?thesis by linarith
qed







section \<open>C1: dispatch on the property type tag\<close>




end
